theory Spec2Isabelle
  imports Complex_Main "HOL-Library.Char_ord" "HOL-Library.List_Lexorder"
begin

section \<open>Strings as Python handles them\<close>

text \<open>
  The cleaner of \<^verbatim>\<open>AutoCleaner_App.py\<close> works on pandas columns with Python's string
  methods. A Python \<^verbatim>\<open>str\<close> is modelled as a \<^typ>\<open>string\<close> of ASCII characters: the
  functions below are the ASCII behaviour of \<^verbatim>\<open>str.strip\<close>, \<^verbatim>\<open>str.lower\<close>,
  \<^verbatim>\<open>str.title\<close>, \<^verbatim>\<open>str.capitalize\<close>, \<^verbatim>\<open>str.split\<close>, \<^verbatim>\<open>str.replace\<close> and of the
  \<^verbatim>\<open>in\<close> operator on strings. Bytes above 127 are treated as caseless symbols.
\<close>

definition is_space :: "char \<Rightarrow> bool" where
  \<comment> \<open>\<^verbatim>\<open>str.isspace\<close> on ASCII, which is also \<^verbatim>\<open>\s\<close> of \<^verbatim>\<open>re\<close>: tab, LF, VT, FF, CR, FS, GS, RS, US, space\<close>
  "is_space c = (c \<in> {CHR 0x09, CHR 0x0A, CHR 0x0B, CHR 0x0C, CHR 0x0D,
                         CHR 0x1C, CHR 0x1D, CHR 0x1E, CHR 0x1F, CHR '' ''})"

definition is_upper :: "char \<Rightarrow> bool" where
  "is_upper c = (CHR ''A'' \<le> c \<and> c \<le> CHR ''Z'')"

definition is_lower :: "char \<Rightarrow> bool" where
  "is_lower c = (CHR ''a'' \<le> c \<and> c \<le> CHR ''z'')"

definition is_digit :: "char \<Rightarrow> bool" where
  "is_digit c = (CHR ''0'' \<le> c \<and> c \<le> CHR ''9'')"

definition lower_char :: "char \<Rightarrow> char" where
  "lower_char c = (if is_upper c then char_of (of_char c + (32::nat)) else c)"

definition upper_char :: "char \<Rightarrow> char" where
  "upper_char c = (if is_lower c then char_of (of_char c - (32::nat)) else c)"

definition lower :: "string \<Rightarrow> string" where
  "lower s = map lower_char s"

definition strip :: "string \<Rightarrow> string" where
  "strip s = rev (dropWhile is_space (rev (dropWhile is_space s)))"

text \<open>
  \<^verbatim>\<open>str.title\<close>: a letter that follows a letter is lower-cased, any other letter is
  upper-cased; the flag says whether the previous character was a letter.
\<close>

fun title_from :: "bool \<Rightarrow> string \<Rightarrow> string" where
  "title_from prev [] = []"
| "title_from prev (c # cs) =
     (if is_lower c \<or> is_upper c
      then (if prev then lower_char c else upper_char c) # title_from True cs
      else c # title_from False cs)"

definition title :: "string \<Rightarrow> string" where
  "title s = title_from False s"

definition capitalize :: "string \<Rightarrow> string" where
  "capitalize s = (case s of [] \<Rightarrow> [] | c # cs \<Rightarrow> upper_char c # lower cs)"

definition replace_char :: "char \<Rightarrow> string \<Rightarrow> string \<Rightarrow> string" where
  \<comment> \<open>\<^verbatim>\<open>s.replace(c, new)\<close> for a one-character pattern\<close>
  "replace_char c new s = concat (map (\<lambda>x. if x = c then new else [x]) s)"

text \<open>\<^verbatim>\<open>s.split()\<close>: the maximal runs of non-space characters, in order.\<close>

fun split_ws :: "string \<Rightarrow> string \<Rightarrow> string list" where
  "split_ws cur [] = (if cur = [] then [] else [rev cur])"
| "split_ws cur (c # cs) =
     (if is_space c then (if cur = [] then split_ws [] cs else rev cur # split_ws [] cs)
      else split_ws (c # cur) cs)"

definition split :: "string \<Rightarrow> string list" where
  "split s = split_ws [] s"

fun join :: "string \<Rightarrow> string list \<Rightarrow> string" where
  "join sep [] = []"
| "join sep [w] = w"
| "join sep (w # v # ws) = w @ sep @ join sep (v # ws)"

fun contains :: "string \<Rightarrow> string \<Rightarrow> bool" where
  \<comment> \<open>\<^verbatim>\<open>sub in s\<close>\<close>
  "contains sub [] = (sub = [])"
| "contains sub (c # cs) = (take (length sub) (c # cs) = sub \<or> contains sub cs)"


section \<open>Tables\<close>

text \<open>
  A pandas \<^verbatim>\<open>DataFrame\<close> is an ordered list of named columns. A column has one of two
  kinds of storage, which is what the code reads as \<^verbatim>\<open>dtype\<close>: \<^verbatim>\<open>object\<close>, whose cells
  are strings or the missing marker (\<^verbatim>\<open>NaN\<close> as \<^verbatim>\<open>read_csv\<close> and \<^verbatim>\<open>read_excel\<close> produce
  it, \<^verbatim>\<open>None\<close> where the cleaner itself stores it), and numeric (\<^verbatim>\<open>int64\<close>/\<^verbatim>\<open>float64\<close>),
  whose cells are numbers with \<^verbatim>\<open>NaN\<close> as the missing marker. Numbers are exact
  rationals together with the two infinities: rounding to binary64 is not modelled.
\<close>

datatype num = Fin rat | PInf | NInf | NaN

datatype coldata = ObjCol "string option list" | NumCol "num list"

record column =
  cname :: string
  cdata :: coldata

type_synonym table = "column list"

datatype cell = S "string option" | N num

definition cells_of :: "coldata \<Rightarrow> cell list" where
  "cells_of d = (case d of ObjCol xs \<Rightarrow> map S xs | NumCol xs \<Rightarrow> map N xs)"

definition ncells :: "coldata \<Rightarrow> nat" where
  "ncells d = (case d of ObjCol xs \<Rightarrow> length xs | NumCol xs \<Rightarrow> length xs)"

definition is_object :: "coldata \<Rightarrow> bool" where
  "is_object d = (case d of ObjCol _ \<Rightarrow> True | NumCol _ \<Rightarrow> False)"

definition columns :: "table \<Rightarrow> string list" where
  \<comment> \<open>\<^verbatim>\<open>df.columns\<close>\<close>
  "columns df = map cname df"

definition nrows :: "table \<Rightarrow> nat" where
  \<comment> \<open>\<^verbatim>\<open>df.shape[0]\<close>; a table without columns has no cells, hence no rows here\<close>
  "nrows df = (case df of [] \<Rightarrow> 0 | c # _ \<Rightarrow> ncells (cdata c))"

definition wf_table :: "table \<Rightarrow> bool" where
  \<comment> \<open>all columns have the same number of cells\<close>
  "wf_table df = list_all (\<lambda>c. ncells (cdata c) = nrows df) df"


section \<open>Column names\<close>

text \<open>
  \<^verbatim>\<open>df.columns = [col.strip().title().replace(" ", "_") for col in df.columns]\<close>
\<close>

definition clean_name :: "string \<Rightarrow> string" where
  "clean_name col = replace_char (CHR '' '') ''_'' (title (strip col))"

definition clean_column_names :: "table \<Rightarrow> table" where
  "clean_column_names df = map (\<lambda>c. c\<lparr>cname := clean_name (cname c)\<rparr>) df"


section \<open>Access to columns by label\<close>

text \<open>
  The cleaning functions loop over column labels and read and write \<^verbatim>\<open>df[col]\<close>. For a
  label that occurs once, \<^verbatim>\<open>df[col]\<close> is a \<^verbatim>\<open>Series\<close>; for a repeated label pandas
  returns a \<^verbatim>\<open>DataFrame\<close> of all the columns with that label, on which the \<^verbatim>\<open>Series\<close>
  operations the code goes on to use raise. A loop body returns the updated table or
  the exception; \<open>for_each\<close> is the \<^verbatim>\<open>for col in ...:\<close> loop, which gives the table as
  it stands when the loop ends, and the exception that ended it, if any.
\<close>

datatype error = AttributeError | ValueError | TypeError | IndexError

datatype selection = Series coldata | DataFrame "coldata list"

definition getitem :: "table \<Rightarrow> string \<Rightarrow> selection" where
  "getitem df col =
     (case filter (\<lambda>c. cname c = col) df of
        [c] \<Rightarrow> Series (cdata c)
      | cs \<Rightarrow> DataFrame (map cdata cs))"

definition setitem :: "table \<Rightarrow> string \<Rightarrow> coldata \<Rightarrow> table" where
  "setitem df col d = map (\<lambda>c. if cname c = col then c\<lparr>cdata := d\<rparr> else c) df"

fun for_each :: "(string \<Rightarrow> table \<Rightarrow> error + table) \<Rightarrow> string list \<Rightarrow> table
                 \<Rightarrow> table \<times> error option" where
  "for_each body [] df = (df, None)"
| "for_each body (col # cols) df =
     (case body col df of
        Inl e \<Rightarrow> (df, Some e)
      | Inr df' \<Rightarrow> for_each body cols df')"


section \<open>Duplicate rows\<close>

text \<open>
  \<^verbatim>\<open>df.drop_duplicates(keep='first')\<close>: a row is dropped when an earlier row has the
  same cell in every column; missing cells compare equal to each other.
\<close>

definition rows :: "table \<Rightarrow> cell list list" where
  "rows df = map (\<lambda>i. map (\<lambda>c. cells_of (cdata c) ! i) df) [0..<nrows df]"

fun first_seen :: "'a set \<Rightarrow> 'a list \<Rightarrow> bool list" where
  "first_seen seen [] = []"
| "first_seen seen (r # rs) = (r \<notin> seen) # first_seen (insert r seen) rs"

definition select :: "bool list \<Rightarrow> 'a list \<Rightarrow> 'a list" where
  \<comment> \<open>indexing with a boolean list\<close>
  "select bs xs = map snd (filter fst (zip bs xs))"

definition take_rows :: "bool list \<Rightarrow> coldata \<Rightarrow> coldata" where
  "take_rows bs d =
     (case d of ObjCol xs \<Rightarrow> ObjCol (select bs xs) | NumCol xs \<Rightarrow> NumCol (select bs xs))"

definition remove_duplicates :: "table \<Rightarrow> table" where
  "remove_duplicates df =
     (let keep = first_seen {} (rows df)
      in map (\<lambda>c. c\<lparr>cdata := take_rows keep (cdata c)\<rparr>) df)"


section \<open>Text columns\<close>

text \<open>
  \<^verbatim>\<open>clean_text_columns\<close> visits the labels of the \<^verbatim>\<open>object\<close> columns.
  \<^verbatim>\<open>astype(str)\<close> turns the missing marker \<^verbatim>\<open>NaN\<close> into the string \<^verbatim>\<open>nan\<close>;
  \<^verbatim>\<open>.str\<close> does not exist on a \<^verbatim>\<open>DataFrame\<close>.
\<close>

definition astype_str :: "string option list \<Rightarrow> string list" where
  "astype_str xs = map (\<lambda>x. case x of None \<Rightarrow> ''nan'' | Some s \<Rightarrow> s) xs"

definition keep_char :: "char \<Rightarrow> bool" where
  \<comment> \<open>the characters outside \<^verbatim>\<open>[^a-z0-9\s.,/-]\<close>\<close>
  "keep_char c = (is_lower c \<or> is_digit c \<or> is_space c
                  \<or> c \<in> {CHR ''.'', CHR '','', CHR ''/'', CHR ''-''})"

definition clean_text :: "string \<Rightarrow> string \<Rightarrow> string" where
  "clean_text col x =
     (let x1 = lower (strip x);
          x2 = filter keep_char x1;
          x3 = (if contains ''name'' (lower col)
                then join '' '' (map capitalize (split x2)) else x2)
      in if contains ''remarks'' (lower col) then replace_char (CHR ''#'') [] x3 else x3)"

definition text_column :: "string \<Rightarrow> coldata \<Rightarrow> coldata" where
  \<comment> \<open>the loop body on one column; the loop never visits a numeric column\<close>
  "text_column col d =
     (case d of
        ObjCol xs \<Rightarrow> ObjCol (map (\<lambda>x. Some (clean_text col x)) (astype_str xs))
      | NumCol _ \<Rightarrow> d)"

definition text_body :: "string \<Rightarrow> table \<Rightarrow> error + table" where
  "text_body col df =
     (case getitem df col of
        DataFrame _ \<Rightarrow> Inl AttributeError
      | Series d \<Rightarrow> Inr (setitem df col (text_column col d)))"

definition clean_text_columns :: "table \<Rightarrow> table \<times> error option" where
  "clean_text_columns df =
     for_each text_body (map cname (filter (\<lambda>c. is_object (cdata c)) df)) df"


section \<open>Numbers written as text\<close>

text \<open>
  Python's \<^verbatim>\<open>float(s)\<close> and the parser behind \<^verbatim>\<open>pd.to_numeric\<close> read a decimal numeral:
  digits with an optional fraction and an optional exponent. \<^verbatim>\<open>float\<close> also strips
  surrounding white space (the C \<^verbatim>\<open>isspace\<close> set), accepts single underscores between
  digits and the words \<^verbatim>\<open>inf\<close>, \<^verbatim>\<open>infinity\<close> and \<^verbatim>\<open>nan\<close>. \<open>None\<close> is the
  \<^verbatim>\<open>ValueError\<close>.
\<close>

definition is_cspace :: "char \<Rightarrow> bool" where
  "is_cspace c = (c \<in> {CHR 0x09, CHR 0x0A, CHR 0x0B, CHR 0x0C, CHR 0x0D, CHR '' ''})"

definition cstrip :: "string \<Rightarrow> string" where
  "cstrip s = rev (dropWhile is_cspace (rev (dropWhile is_cspace s)))"

definition digit_val :: "char \<Rightarrow> nat" where
  "digit_val c = of_char c - 48"

definition nat_of_digits :: "string \<Rightarrow> nat" where
  "nat_of_digits ds = foldl (\<lambda>n c. 10 * n + digit_val c) 0 ds"

definition pow10 :: "int \<Rightarrow> rat" where
  "pow10 k = (if 0 \<le> k then 10 ^ nat k else 1 / 10 ^ nat (- k))"

definition decimal_value :: "string \<Rightarrow> string \<Rightarrow> int \<Rightarrow> rat" where
  \<comment> \<open>integer digits, fraction digits, exponent\<close>
  "decimal_value ip fp e = of_nat (nat_of_digits (ip @ fp)) * pow10 (e - int (length fp))"

definition sign_split :: "string \<Rightarrow> bool \<times> string" where
  "sign_split s =
     (case s of
        [] \<Rightarrow> (False, [])
      | c # cs \<Rightarrow> if c = CHR ''-'' then (True, cs)
                  else if c = CHR ''+'' then (False, cs) else (False, s))"

definition exponent :: "string \<Rightarrow> int option" where
  \<comment> \<open>what follows the mantissa: nothing, or \<^verbatim>\<open>e\<close>, an optional sign and digits\<close>
  "exponent r =
     (case r of
        [] \<Rightarrow> Some 0
      | c # cs \<Rightarrow>
          if c = CHR ''e'' \<or> c = CHR ''E''
          then (let (neg, ds) = sign_split cs
                in if ds \<noteq> [] \<and> list_all is_digit ds
                   then Some (if neg then - int (nat_of_digits ds) else int (nat_of_digits ds))
                   else None)
          else None)"

definition decimal :: "string \<Rightarrow> rat option" where
  "decimal s =
     (let ip = takeWhile is_digit s;
          r1 = dropWhile is_digit s;
          (fp, r2) = (case r1 of
                        [] \<Rightarrow> ([], [])
                      | c # cs \<Rightarrow> if c = CHR ''.''
                                  then (takeWhile is_digit cs, dropWhile is_digit cs)
                                  else ([], r1))
      in if ip = [] \<and> fp = [] then None
         else (case exponent r2 of None \<Rightarrow> None | Some e \<Rightarrow> Some (decimal_value ip fp e)))"

definition signed_decimal :: "string \<Rightarrow> rat option" where
  "signed_decimal s =
     (let (neg, body) = sign_split s
      in case decimal body of None \<Rightarrow> None | Some r \<Rightarrow> Some (if neg then - r else r))"

fun drop_underscores :: "char \<Rightarrow> string \<Rightarrow> string option" where
  \<comment> \<open>an underscore must stand between two digits; the first argument is the previous character\<close>
  "drop_underscores prev [] = (if prev = CHR ''_'' then None else Some [])"
| "drop_underscores prev (c # cs) =
     (if c = CHR ''_''
      then (if is_digit prev then drop_underscores c cs else None)
      else if prev = CHR ''_'' \<and> \<not> is_digit c then None
      else (case drop_underscores c cs of None \<Rightarrow> None | Some r \<Rightarrow> Some (c # r)))"

definition py_float :: "string \<Rightarrow> num option" where
  "py_float s =
     (case drop_underscores (CHR 0x00) s of
        None \<Rightarrow> None
      | Some t \<Rightarrow>
          (let (neg, body) = sign_split (cstrip t)
           in if lower body = ''inf'' \<or> lower body = ''infinity''
              then Some (if neg then NInf else PInf)
              else if lower body = ''nan'' then Some NaN
              else (case decimal body of
                      None \<Rightarrow> None
                    | Some r \<Rightarrow> Some (Fin (if neg then - r else r)))))"

definition scale :: "num \<Rightarrow> rat \<Rightarrow> num" where
  \<comment> \<open>\<^verbatim>\<open>x * k\<close> for a positive constant\<close>
  "scale x k = (case x of Fin r \<Rightarrow> Fin (r * k) | _ \<Rightarrow> x)"

text \<open>
  One cell of \<^verbatim>\<open>pd.to_numeric(..., errors='coerce')\<close> on a string: the tokenizer's
  \<^verbatim>\<open>xstrtod\<close> grammar between optional white space, else one of the spellings of
  infinity, else \<^verbatim>\<open>NaN\<close>.
\<close>

definition to_numeric_str :: "string \<Rightarrow> num" where
  "to_numeric_str s =
     (case signed_decimal (rev (dropWhile is_cspace (rev (dropWhile is_cspace s)))) of
        Some r \<Rightarrow> Fin r
      | None \<Rightarrow>
          if lower s \<in> {''inf'', ''+inf'', ''infinity'', ''+infinity''} then PInf
          else if lower s \<in> {''-inf'', ''-infinity''} then NInf
          else NaN)"


section \<open>Salary columns\<close>

definition roman_map :: "char \<rightharpoonup> int" where
  "roman_map = [CHR ''i'' \<mapsto> 1, CHR ''v'' \<mapsto> 5, CHR ''x'' \<mapsto> 10, CHR ''l'' \<mapsto> 50,
                CHR ''c'' \<mapsto> 100, CHR ''d'' \<mapsto> 500, CHR ''m'' \<mapsto> 1000]"

definition roman_get :: "char \<Rightarrow> int" where
  \<comment> \<open>\<^verbatim>\<open>roman_map.get(char, 0)\<close>\<close>
  "roman_get ch = (case roman_map ch of None \<Rightarrow> 0 | Some v \<Rightarrow> v)"

fun roman_step :: "char \<Rightarrow> int \<times> int \<Rightarrow> int \<times> int" where
  \<comment> \<open>one round of the loop on the pair of \<^verbatim>\<open>total\<close> and \<^verbatim>\<open>prev\<close>\<close>
  "roman_step ch (tot, prev) =
     (if roman_get ch < prev then tot - roman_get ch else tot + roman_get ch, roman_get ch)"

definition roman_to_int :: "string \<Rightarrow> int" where
  "roman_to_int s = fst (fold roman_step (rev (lower s)) (0, 0))"

text \<open>
  Following the spec, for comparison: the subtractive reading of a numeral from its
  symbols' values. A value smaller than the one to its right is subtracted, any other
  is added.
\<close>

fun subtractive_value :: "int list \<Rightarrow> int" where
  "subtractive_value [] = 0"
| "subtractive_value [v] = v"
| "subtractive_value (v # w # vs) =
     (if v < w then subtractive_value (w # vs) - v else subtractive_value (w # vs) + v)"

definition is_roman :: "char \<Rightarrow> bool" where
  \<comment> \<open>the character class \<^verbatim>\<open>[ivxlcdm]\<close>\<close>
  "is_roman c = (c \<in> {CHR ''i'', CHR ''v'', CHR ''x'', CHR ''l'', CHR ''c'', CHR ''d'', CHR ''m''})"

definition salary_text :: "string \<Rightarrow> string" where
  \<comment> \<open>\<^verbatim>\<open>str(val).lower().replace('$', '').replace(',', '').strip()\<close>\<close>
  "salary_text v = strip (replace_char (CHR '','') [] (replace_char (CHR ''$'') [] (lower v)))"

text \<open>\<open>parse_salary\<close> on the text of a cell; \<open>None\<close> is Python's \<^verbatim>\<open>None\<close>.\<close>

definition parse_salary :: "string \<Rightarrow> num option" where
  "parse_salary v =
     (let val = salary_text v
      in if val \<noteq> [] \<and> list_all is_roman val then Some (Fin (of_int (roman_to_int val)))
         else if CHR ''k'' \<in> set val
         then (case py_float (replace_char (CHR ''k'') [] val) of
                 None \<Rightarrow> None
               | Some x \<Rightarrow> Some (scale x 1000))
         else py_float (filter (\<lambda>c. is_digit c \<or> c = CHR ''.'') val))"

text \<open>
  \<^verbatim>\<open>df[col].apply(parse_salary)\<close>: the results become a numeric column unless every one
  of them is \<^verbatim>\<open>None\<close>, and an empty column keeps its storage. The text of a numeric
  cell, \<^verbatim>\<open>str(val)\<close>, is a parameter \<open>num_str\<close> of the model. Assigning the result of
  \<^verbatim>\<open>DataFrame.apply\<close> to a repeated label raises \<^verbatim>\<open>ValueError\<close>.
\<close>

definition apply_result :: "coldata \<Rightarrow> num option list \<Rightarrow> coldata" where
  "apply_result d rs =
     (if rs = [] then d
      else if list_all (\<lambda>r. r = None) rs then ObjCol (map (\<lambda>_. None) rs)
      else NumCol (map (\<lambda>r. case r of None \<Rightarrow> NaN | Some x \<Rightarrow> x) rs))"

definition cell_strs :: "(num \<Rightarrow> string) \<Rightarrow> coldata \<Rightarrow> string list" where
  \<comment> \<open>\<^verbatim>\<open>str(val)\<close> of every cell\<close>
  "cell_strs num_str d = (case d of ObjCol xs \<Rightarrow> astype_str xs | NumCol xs \<Rightarrow> map num_str xs)"

definition salary_column :: "(num \<Rightarrow> string) \<Rightarrow> coldata \<Rightarrow> coldata" where
  "salary_column num_str d = apply_result d (map parse_salary (cell_strs num_str d))"

definition salary_body :: "(num \<Rightarrow> string) \<Rightarrow> string \<Rightarrow> table \<Rightarrow> error + table" where
  "salary_body num_str col df =
     (if contains ''salary'' (lower col)
      then (case getitem df col of
              DataFrame _ \<Rightarrow> Inl ValueError
            | Series d \<Rightarrow> Inr (setitem df col (salary_column num_str d)))
      else Inr df)"

definition normalize_salary_column :: "(num \<Rightarrow> string) \<Rightarrow> table \<Rightarrow> table \<times> error option" where
  "normalize_salary_column num_str df = for_each (salary_body num_str) (columns df) df"


section \<open>Age columns\<close>

definition text_to_num :: "string \<rightharpoonup> string option" where
  "text_to_num = [''thirty'' \<mapsto> Some ''30'', ''twenty two'' \<mapsto> Some ''22'',
                  ''twenty'' \<mapsto> Some ''20'', ''forty'' \<mapsto> Some ''40'', ''none'' \<mapsto> None]"

definition replace_cell :: "string option \<Rightarrow> string option" where
  \<comment> \<open>\<^verbatim>\<open>Series.replace(text_to_num)\<close> on one cell: a cell equal to a key gets the key's value\<close>
  "replace_cell x =
     (case x of
        None \<Rightarrow> None
      | Some s \<Rightarrow> (case text_to_num s of None \<Rightarrow> Some s | Some v \<Rightarrow> v))"

definition to_numeric_cell :: "string option \<Rightarrow> num" where
  "to_numeric_cell x = (case x of None \<Rightarrow> NaN | Some s \<Rightarrow> to_numeric_str s)"

definition age_column :: "coldata \<Rightarrow> coldata" where
  \<comment> \<open>\<^verbatim>\<open>pd.to_numeric(df[col].replace(text_to_num), errors='coerce')\<close>\<close>
  "age_column d =
     (case d of
        ObjCol xs \<Rightarrow> NumCol (map (\<lambda>x. to_numeric_cell (replace_cell x)) xs)
      | NumCol xs \<Rightarrow> NumCol xs)"

definition age_body :: "string \<Rightarrow> table \<Rightarrow> error + table" where
  "age_body col df =
     (if contains ''age'' (lower col)
      then (case getitem df col of
              DataFrame _ \<Rightarrow> Inl TypeError
            | Series d \<Rightarrow> Inr (setitem df col (age_column d)))
      else Inr df)"

definition normalize_age_column :: "table \<Rightarrow> table \<times> error option" where
  "normalize_age_column df = for_each age_body (columns df) df"


section \<open>Dates\<close>

text \<open>
  \<^verbatim>\<open>datetime.strptime\<close> turns the format into a regular expression, one group for each
  directive, every run of white space in the format into \<^verbatim>\<open>\s+\<close>, and matches it
  ignoring case at the start of the text; the first match in the order in which the
  expression backtracks is taken, and it has to end where the text ends. The groups of
  the English locale are the ones below. The date must exist, with a year from 1 on.
\<close>

record date =
  year :: nat
  month :: nat
  day :: nat

datatype directive = Dir char | Lit char | Spaces

fun compile_format :: "string \<Rightarrow> directive list" where
  "compile_format [] = []"
| "compile_format [c] = (if is_space c then [Spaces] else [Lit c])"
| "compile_format (c # d # cs) =
     (if c = CHR ''%'' then Dir d # compile_format cs
      else if is_space c then
        (if is_space d then compile_format (d # cs) else Spaces # compile_format (d # cs))
      else Lit c # compile_format (d # cs))"

definition month_names :: "string list" where
  "month_names = [''january'', ''february'', ''march'', ''april'', ''may'', ''june'', ''july'',
                  ''august'', ''september'', ''october'', ''november'', ''december'']"

definition month_abbrs :: "string list" where
  "month_abbrs = map (take 3) month_names"

definition by_length :: "string list \<Rightarrow> string list" where
  \<comment> \<open>\<^verbatim>\<open>sorted(names, key=len, reverse=True)\<close>, a stable sort\<close>
  "by_length names = concat (map (\<lambda>k. filter (\<lambda>w. length w = k) names) (rev [0..<10]))"

definition index_of :: "string \<Rightarrow> string list \<Rightarrow> nat" where
  "index_of w ws = length (takeWhile (\<lambda>v. v \<noteq> w) ws)"

definition digits_where :: "nat \<Rightarrow> (string \<Rightarrow> bool) \<Rightarrow> string \<Rightarrow> (nat \<times> string) list" where
  \<comment> \<open>the first \<open>k\<close> characters, when they satisfy \<open>p\<close>, read as a number\<close>
  "digits_where k p s =
     (if k \<le> length s \<and> p (take k s) then [(nat_of_digits (take k s), drop k s)] else [])"

definition between :: "char \<Rightarrow> char \<Rightarrow> char \<Rightarrow> bool" where
  "between lo hi c = (lo \<le> c \<and> c \<le> hi)"

definition name_alts :: "string list \<Rightarrow> string \<Rightarrow> (nat \<times> string) list" where
  \<comment> \<open>the names that start the text, longest first; the value is the month's number\<close>
  "name_alts names s =
     concat (map (\<lambda>w. if lower (take (length w) s) = w
                        then [(Suc (index_of w names), drop (length w) s)] else [])
                 (by_length names))"

definition alts :: "char \<Rightarrow> string \<Rightarrow> (nat \<times> string) list" where
  \<comment> \<open>the ways a directive's group matches at the start of the text, in the order tried\<close>
  "alts d s =
     (if d = CHR ''d'' then
        digits_where 2 (\<lambda>t. t ! 0 = CHR ''3'' \<and> between (CHR ''0'') (CHR ''1'') (t ! 1)) s
        @ digits_where 2 (\<lambda>t. between (CHR ''1'') (CHR ''2'') (t ! 0) \<and> is_digit (t ! 1)) s
        @ digits_where 2 (\<lambda>t. t ! 0 = CHR ''0'' \<and> between (CHR ''1'') (CHR ''9'') (t ! 1)) s
        @ digits_where 1 (\<lambda>t. between (CHR ''1'') (CHR ''9'') (t ! 0)) s
        @ (case s of
             [] \<Rightarrow> []
           | c # cs \<Rightarrow> if c = CHR '' ''
                       then digits_where 1 (\<lambda>t. between (CHR ''1'') (CHR ''9'') (t ! 0)) cs
                       else [])
      else if d = CHR ''m'' then
        digits_where 2 (\<lambda>t. t ! 0 = CHR ''1'' \<and> between (CHR ''0'') (CHR ''2'') (t ! 1)) s
        @ digits_where 2 (\<lambda>t. t ! 0 = CHR ''0'' \<and> between (CHR ''1'') (CHR ''9'') (t ! 1)) s
        @ digits_where 1 (\<lambda>t. between (CHR ''1'') (CHR ''9'') (t ! 0)) s
      else if d = CHR ''Y'' then digits_where 4 (list_all is_digit) s
      else if d = CHR ''B'' then name_alts month_names s
      else if d = CHR ''b'' then name_alts month_abbrs s
      else [])"

type_synonym fields = "(char \<times> nat) list"

fun matches :: "directive list \<Rightarrow> string \<Rightarrow> fields \<Rightarrow> (fields \<times> string) list" where
  "matches [] s fs = [(fs, s)]"
| "matches (Lit c # ds) s fs =
     (case s of
        [] \<Rightarrow> []
      | x # xs \<Rightarrow> if lower_char x = lower_char c then matches ds xs fs else [])"
| "matches (Spaces # ds) s fs =
     concat (map (\<lambda>k. matches ds (drop k s) fs)
                 (rev [1..<Suc (length (takeWhile is_space s))]))"
| "matches (Dir d # ds) s fs =
     concat (map (\<lambda>(v, r). matches ds r ((d, v) # fs)) (alts d s))"

definition leap_year :: "nat \<Rightarrow> bool" where
  "leap_year y = (y mod 4 = 0 \<and> (y mod 100 \<noteq> 0 \<or> y mod 400 = 0))"

definition days_in_month :: "nat \<Rightarrow> nat \<Rightarrow> nat" where
  "days_in_month y m =
     (if m = 2 then (if leap_year y then 29 else 28)
      else if m \<in> {4, 6, 9, 11} then 30 else 31)"

definition valid_date :: "date \<Rightarrow> bool" where
  "valid_date d = (1 \<le> year d \<and> year d \<le> 9999 \<and> 1 \<le> month d \<and> month d \<le> 12
                   \<and> 1 \<le> day d \<and> day d \<le> days_in_month (year d) (month d))"

definition field :: "fields \<Rightarrow> char \<Rightarrow> nat \<Rightarrow> nat" where
  "field fs d dflt = (case map_of fs d of None \<Rightarrow> dflt | Some v \<Rightarrow> v)"

definition month_field :: "fields \<Rightarrow> nat" where
  "month_field fs = field fs (CHR ''m'') (field fs (CHR ''B'') (field fs (CHR ''b'') 1))"

definition strptime :: "string \<Rightarrow> string \<Rightarrow> date option" where
  "strptime s fmt =
     (case matches (compile_format fmt) s [] of
        [] \<Rightarrow> None
      | (fs, rest) # _ \<Rightarrow>
          (let d = \<lparr>year = field fs (CHR ''Y'') 1900, month = month_field fs,
                    day = field fs (CHR ''d'') 1\<rparr>
           in if rest = [] \<and> valid_date d then Some d else None))"

text \<open>
  \<^verbatim>\<open>strftime('%Y-%m-%d')\<close> as CPython gives it with the C library of Linux (glibc):
  month and day in two digits, the year in as many digits as it has, so that a year
  below 1000 comes out shorter than four digits (\<^verbatim>\<open>999-01-01\<close>). The C library of
  Windows fills the year with zeros to four digits.
\<close>

definition digit_char :: "nat \<Rightarrow> char" where
  "digit_char n = char_of (48 + n mod 10)"

fun pad :: "nat \<Rightarrow> nat \<Rightarrow> string" where
  \<comment> \<open>a number in at least \<open>k\<close> digits\<close>
  "pad 0 n = (if n = 0 then [] else pad 0 (n div 10) @ [digit_char n])"
| "pad (Suc k) n = pad k (n div 10) @ [digit_char n]"

definition strftime :: "date \<Rightarrow> string" where
  "strftime d = pad 1 (year d) @ ''-'' @ pad 2 (month d) @ ''-'' @ pad 2 (day d)"

text \<open>Following the spec, for comparison: a text of the form \<^verbatim>\<open>YYYY-MM-DD\<close>.\<close>

definition iso_form :: "string \<Rightarrow> bool" where
  "iso_form s = (length s = 10 \<and> list_all is_digit (take 4 s) \<and> s ! 4 = CHR ''-''
                 \<and> list_all is_digit (take 2 (drop 5 s)) \<and> s ! 7 = CHR ''-''
                 \<and> list_all is_digit (drop 8 s))"

definition known_formats :: "string list" where
  "known_formats = [''%d-%m-%Y'', ''%d/%m/%Y'', ''%Y-%m-%d'', ''%m/%d/%Y'', ''%Y/%m/%d'',
                    ''%d-%b-%Y'', ''%d %B %Y'', ''%B %d, %Y'', ''%b %d, %Y'']"

fun try_formats :: "string \<Rightarrow> string list \<Rightarrow> date option" where
  \<comment> \<open>the loop over the formats, left at the first one that parses\<close>
  "try_formats s [] = None"
| "try_formats s (fmt # fmts) =
     (case strptime s fmt of None \<Rightarrow> try_formats s fmts | Some d \<Rightarrow> Some d)"

definition str_cell :: "string option \<Rightarrow> string" where
  \<comment> \<open>\<^verbatim>\<open>str(val)\<close> of a cell of an \<^verbatim>\<open>object\<close> column\<close>
  "str_cell x = (case x of None \<Rightarrow> ''nan'' | Some s \<Rightarrow> s)"

text \<open>
  The fallback \<^verbatim>\<open>pd.to_datetime(val, errors='coerce')\<close> is a parameter of the model: it
  gives a date or nothing (\<^verbatim>\<open>NaT\<close>, \<^verbatim>\<open>None\<close> or an exception, which the code turns into
  \<^verbatim>\<open>None\<close>).
\<close>

definition parse_date :: "(string option \<Rightarrow> date option) \<Rightarrow> string option \<Rightarrow> date option" where
  "parse_date to_datetime v =
     (case try_formats (strip (str_cell v)) known_formats of
        None \<Rightarrow> to_datetime v
      | Some d \<Rightarrow> Some d)"

definition clean_date :: "(string option \<Rightarrow> date option) \<Rightarrow> string option \<Rightarrow> string option" where
  "clean_date to_datetime v = map_option strftime (parse_date to_datetime v)"

definition truthy :: "string option \<Rightarrow> bool" where
  "truthy x = (x \<noteq> None \<and> x \<noteq> Some [])"

definition date_column :: "(string option \<Rightarrow> date option) \<Rightarrow> coldata \<Rightarrow> coldata" where
  "date_column to_datetime d =
     (case d of
        ObjCol xs \<Rightarrow>
          (let cleaned_col = map (clean_date to_datetime) xs
           in if list_ex truthy cleaned_col then ObjCol cleaned_col else d)
      | NumCol _ \<Rightarrow> d)"

definition date_body :: "(string option \<Rightarrow> date option) \<Rightarrow> string \<Rightarrow> table \<Rightarrow> error + table" where
  "date_body to_datetime col df =
     (case getitem df col of
        DataFrame _ \<Rightarrow> Inl AttributeError
      | Series d \<Rightarrow> Inr (setitem df col (date_column to_datetime d)))"

definition parse_date_columns :: "(string option \<Rightarrow> date option) \<Rightarrow> table \<Rightarrow> table \<times> error option" where
  "parse_date_columns to_datetime df = for_each (date_body to_datetime) (columns df) df"


section \<open>Missing values\<close>

text \<open>
  \<^verbatim>\<open>df[col].isnull().mean() <= threshold\<close>: the share of missing cells, which is \<^verbatim>\<open>NaN\<close>
  for a column without cells, so that the comparison is false. On a \<^verbatim>\<open>DataFrame\<close> the
  comparison gives a \<^verbatim>\<open>Series\<close>, whose truth value raises \<^verbatim>\<open>ValueError\<close>.
\<close>

definition present :: "'a option list \<Rightarrow> 'a list" where
  "present xs = concat (map (\<lambda>x. case x of None \<Rightarrow> [] | Some v \<Rightarrow> [v]) xs)"

definition missing_count :: "coldata \<Rightarrow> nat" where
  "missing_count d =
     (case d of
        ObjCol xs \<Rightarrow> length (filter (\<lambda>x. x = None) xs)
      | NumCol xs \<Rightarrow> length (filter (\<lambda>x. x = NaN) xs))"

definition fraction_le :: "coldata \<Rightarrow> rat \<Rightarrow> bool" where
  "fraction_le d threshold =
     (ncells d \<noteq> 0 \<and> of_nat (missing_count d) / of_nat (ncells d) \<le> threshold)"

text \<open>
  \<^verbatim>\<open>Series.mode()\<close>: the values that occur most often among the cells that are not
  missing, in sorted order.
\<close>

definition modes :: "string option list \<Rightarrow> string list" where
  "modes xs =
     (let vals = present xs;
          most = fold max (map (count_list vals) vals) 0
      in sort (remdups (filter (\<lambda>v. count_list vals v = most) vals)))"

definition fillna_obj :: "string \<Rightarrow> string option list \<Rightarrow> string option list" where
  "fillna_obj m xs = map (\<lambda>x. case x of None \<Rightarrow> Some m | Some s \<Rightarrow> Some s) xs"

text \<open>
  \<^verbatim>\<open>Series.median()\<close>: the middle of the sorted cells that are not \<^verbatim>\<open>NaN\<close>, the mean of
  the two middle ones when their number is even, \<^verbatim>\<open>NaN\<close> when there is none.
\<close>

definition num_le :: "num \<Rightarrow> num \<Rightarrow> bool" where
  "num_le a b =
     (case (a, b) of
        (NInf, _) \<Rightarrow> True
      | (_, PInf) \<Rightarrow> True
      | (Fin x, Fin y) \<Rightarrow> x \<le> y
      | _ \<Rightarrow> False)"

fun insert_num :: "num \<Rightarrow> num list \<Rightarrow> num list" where
  "insert_num a [] = [a]"
| "insert_num a (b # bs) = (if num_le a b then a # b # bs else b # insert_num a bs)"

definition sort_num :: "num list \<Rightarrow> num list" where
  "sort_num xs = foldr insert_num xs []"

definition mean2 :: "num \<Rightarrow> num \<Rightarrow> num" where
  "mean2 a b =
     (case (a, b) of
        (Fin x, Fin y) \<Rightarrow> Fin ((x + y) / 2)
      | (NaN, _) \<Rightarrow> NaN
      | (_, NaN) \<Rightarrow> NaN
      | (PInf, NInf) \<Rightarrow> NaN
      | (NInf, PInf) \<Rightarrow> NaN
      | (PInf, _) \<Rightarrow> PInf
      | (_, PInf) \<Rightarrow> PInf
      | _ \<Rightarrow> NInf)"

definition median :: "num list \<Rightarrow> num" where
  "median xs =
     (let vs = sort_num (filter (\<lambda>x. x \<noteq> NaN) xs);
          n = length vs
      in if n = 0 then NaN
         else if odd n then vs ! (n div 2)
         else mean2 (vs ! (n div 2 - 1)) (vs ! (n div 2)))"

definition fillna_num :: "num \<Rightarrow> num list \<Rightarrow> num list" where
  "fillna_num m xs = map (\<lambda>x. if x = NaN then m else x) xs"

definition fill_column :: "coldata \<Rightarrow> error + coldata" where
  \<comment> \<open>the two branches on the \<^verbatim>\<open>dtype\<close>; \<^verbatim>\<open>.iloc[0]\<close> of an empty \<^verbatim>\<open>mode()\<close> raises\<close>
  "fill_column d =
     (case d of
        ObjCol xs \<Rightarrow>
          (case modes xs of
             [] \<Rightarrow> Inl IndexError
           | m # _ \<Rightarrow> Inr (ObjCol (fillna_obj m xs)))
      | NumCol xs \<Rightarrow> Inr (NumCol (fillna_num (median xs) xs)))"

definition missing_body :: "rat \<Rightarrow> string \<Rightarrow> table \<Rightarrow> error + table" where
  "missing_body threshold col df =
     (case getitem df col of
        DataFrame _ \<Rightarrow> Inl ValueError
      | Series d \<Rightarrow>
          if fraction_le d threshold
          then (case fill_column d of Inl e \<Rightarrow> Inl e | Inr d' \<Rightarrow> Inr (setitem df col d'))
          else Inr df)"

definition impute :: "rat \<Rightarrow> coldata \<Rightarrow> coldata" where
  \<comment> \<open>what a round of the loop that does not raise leaves in the column\<close>
  "impute threshold d =
     (if fraction_le d threshold
      then (case fill_column d of Inl _ \<Rightarrow> d | Inr d' \<Rightarrow> d')
      else d)"

text \<open>
  Following the spec, for comparison: a most frequent value of a list, and the most
  frequent value that comes first in the list.
\<close>

definition most_frequent :: "'a \<Rightarrow> 'a list \<Rightarrow> bool" where
  "most_frequent v vals =
     (v \<in> set vals \<and> (\<forall>w\<in>set vals. count_list vals w \<le> count_list vals v))"

definition first_mode :: "'a list \<Rightarrow> 'a option" where
  "first_mode vals =
     find (\<lambda>v. list_all (\<lambda>w. count_list vals w \<le> count_list vals v) vals) vals"

definition handle_missing_values :: "rat \<Rightarrow> table \<Rightarrow> table \<times> error option" where
  "handle_missing_values threshold df = for_each (missing_body threshold) (columns df) df"


section \<open>The pipeline\<close>

record report =
  rows_before :: nat
  rows_after :: nat
  columns_before :: nat
  columns_after :: nat

definition generate_cleaning_report :: "table \<Rightarrow> table \<Rightarrow> report" where
  "generate_cleaning_report df_before df_after =
     \<lparr>rows_before = nrows df_before, rows_after = nrows df_after,
      columns_before = length df_before, columns_after = length df_after\<rparr>"

fun and_then :: "table \<times> error option \<Rightarrow> (table \<Rightarrow> table \<times> error option)
                 \<Rightarrow> table \<times> error option" where
  \<comment> \<open>the next statement runs unless an exception is on its way out\<close>
  "and_then (df, None) stage = stage df"
| "and_then (df, Some e) stage = (df, Some e)"

text \<open>
  \<open>auto_clean\<close> with the default threshold \<^verbatim>\<open>0.4\<close> of \<open>handle_missing_values\<close>. No
  statement of it catches an exception: \<open>Inl\<close> is the exception that leaves it.
\<close>

definition auto_clean :: "(num \<Rightarrow> string) \<Rightarrow> (string option \<Rightarrow> date option) \<Rightarrow> table
                          \<Rightarrow> error + table \<times> report" where
  "auto_clean num_str to_datetime df =
     (let df_before = df;
          df1 = clean_column_names df;
          df2 = remove_duplicates df1;
          r3 = clean_text_columns df2;
          r4 = and_then r3 (normalize_salary_column num_str);
          r5 = and_then r4 normalize_age_column;
          r6 = and_then r5 (parse_date_columns to_datetime);
          r7 = and_then r6 (handle_missing_values (2 / 5))
      in case r7 of
           (df', None) \<Rightarrow> Inr (df', generate_cleaning_report df_before df')
         | (_, Some e) \<Rightarrow> Inl e)"


section \<open>Properties: column names\<close>

lemma columns_clean_column_names:
  "columns (clean_column_names df) = map clean_name (columns df)"
  by (simp add: columns_def clean_column_names_def o_def)

lemma cdata_clean_column_names: "map cdata (clean_column_names df) = map cdata df"
  by (simp add: clean_column_names_def o_def)

text \<open>
  Claim C7, as stated: after \<open>clean_column_names\<close> no two columns share a name. It fails:
  the labels \<^verbatim>\<open>name\<close> and \<^verbatim>\<open>Name \<close> (with a trailing space) are different, and both
  become \<^verbatim>\<open>Name\<close>.
\<close>

theorem clean_column_names_collision:
  "\<not> distinct (columns (clean_column_names
       [\<lparr>cname = ''name'', cdata = ObjCol [Some ''x'']\<rparr>,
        \<lparr>cname = ''Name '', cdata = ObjCol [Some ''y'']\<rparr>]))"
  by code_simp

text \<open>
  Claim C7, amended: \<open>clean_column_names\<close> rewrites every label on its own (trim, title
  case, spaces to underscores) and keeps the number, the order and the cells of the
  columns; nothing resolves a collision, so the labels of the result are unique exactly
  when the labels of the input are unique and no two of them have the same cleaned
  form.
\<close>

theorem clean_column_names_unique_iff:
  "columns (clean_column_names df) = map clean_name (columns df)
   \<and> map cdata (clean_column_names df) = map cdata df
   \<and> (distinct (columns (clean_column_names df))
        \<longleftrightarrow> distinct (columns df) \<and> inj_on clean_name (set (columns df)))"
  by (simp add: columns_clean_column_names cdata_clean_column_names distinct_map)

theorem clean_column_names_unique_witness:
  "columns (clean_column_names
       [\<lparr>cname = ''Full Name '', cdata = ObjCol [Some ''x'']\<rparr>,
        \<lparr>cname = ''age'', cdata = NumCol [Fin 3]\<rparr>]) = [''Full_Name'', ''Age'']
   \<and> distinct (columns (clean_column_names
       [\<lparr>cname = ''Full Name '', cdata = ObjCol [Some ''x'']\<rparr>,
        \<lparr>cname = ''age'', cdata = NumCol [Fin 3]\<rparr>]))"
proof -
  let ?T = "[\<lparr>cname = ''Full Name '', cdata = ObjCol [Some ''x'']\<rparr>,
             \<lparr>cname = ''age'', cdata = NumCol [Fin 3]\<rparr>]"
  have names: "map clean_name (columns ?T) = [''Full_Name'', ''Age'']"
    by code_simp
  from clean_column_names_unique_iff [of ?T] names show ?thesis
    by simp
qed


section \<open>Properties: duplicate rows\<close>

lemma select_Nil [simp]: "select [] xs = []" "select bs [] = []"
  by (simp_all add: select_def)

lemma select_Cons [simp]:
  "select (b # bs) (x # xs) = (if b then x # select bs xs else select bs xs)"
  by (simp add: select_def)

lemma select_map: "select bs (map f xs) = map f (select bs xs)"
  by (induction bs xs rule: list_induct2') auto

lemma select_all_True: "select (replicate (length xs) True) xs = xs"
  by (induction xs) auto

lemma length_first_seen: "length (first_seen seen rs) = length rs"
  by (induction rs arbitrary: seen) auto

text \<open>What survives the removal has no duplicates left: every row of it is kept.\<close>

lemma first_seen_select:
  "first_seen seen (select (first_seen seen rs) rs) =
     replicate (length (select (first_seen seen rs) rs)) True"
proof (induction rs arbitrary: seen)
  case Nil
  show ?case by simp
next
  case (Cons r rs)
  show ?case
  proof (cases "r \<in> seen")
    case True
    then have "insert r seen = seen" by auto
    with True Cons show ?thesis by simp
  next
    case False
    with Cons show ?thesis by simp
  qed
qed

lemma select_nth: "select bs xs = map (nth xs) (select bs [0..<length xs])"
proof -
  have "select bs xs = select bs (map (nth xs) [0..<length xs])"
    by (simp add: map_nth)
  then show ?thesis by (simp only: select_map)
qed

lemma cells_of_take_rows: "cells_of (take_rows bs d) = select bs (cells_of d)"
  by (cases d) (simp_all add: cells_of_def take_rows_def select_map)

lemma ncells_cells_of: "ncells d = length (cells_of d)"
  by (cases d) (simp_all add: cells_of_def ncells_def)

lemma take_rows_all: "ncells d = m \<Longrightarrow> take_rows (replicate m True) d = d"
  by (cases d) (auto simp: take_rows_def ncells_def select_all_True)

text \<open>The rows of the result are the rows of the input that were kept.\<close>

lemma rows_remove_duplicates:
  assumes "wf_table df"
  shows "rows (remove_duplicates df) = select (first_seen {} (rows df)) (rows df)"
proof (cases df)
  case Nil
  then show ?thesis by (simp add: remove_duplicates_def rows_def nrows_def)
next
  case (Cons c0 cs)
  define n where "n = nrows df"
  define keep where "keep = first_seen {} (rows df)"
  define sel where "sel = select keep [0..<n]"
  have len: "\<And>c. c \<in> set df \<Longrightarrow> length (cells_of (cdata c)) = n"
    using assms by (simp add: wf_table_def list_all_iff n_def ncells_cells_of)
  have sel_cells: "select keep (cells_of (cdata c)) = map (nth (cells_of (cdata c))) sel"
    if "c \<in> set df" for c
    using select_nth [of keep "cells_of (cdata c)"] len [OF that] by (simp add: sel_def)
  have rd: "remove_duplicates df = map (\<lambda>c. c\<lparr>cdata := take_rows keep (cdata c)\<rparr>) df"
    by (simp add: remove_duplicates_def keep_def)
  have "c0 \<in> set df" using Cons by simp
  then have "length (cells_of (take_rows keep (cdata c0))) = length sel"
    using sel_cells [of c0] by (simp add: cells_of_take_rows)
  moreover have "remove_duplicates df =
      c0\<lparr>cdata := take_rows keep (cdata c0)\<rparr>
        # map (\<lambda>c. c\<lparr>cdata := take_rows keep (cdata c)\<rparr>) cs"
    using rd Cons by simp
  ultimately have nr: "nrows (remove_duplicates df) = length sel"
    by (simp add: nrows_def ncells_cells_of)
  have "rows (remove_duplicates df) =
        map (\<lambda>j. map (\<lambda>c. cells_of (cdata c) ! (sel ! j)) df) [0..<length sel]"
    unfolding rows_def nr
    by (rule map_cong [OF refl]) (simp add: rd cells_of_take_rows sel_cells o_def)
  also have "\<dots> = map (\<lambda>i. map (\<lambda>c. cells_of (cdata c) ! i) df) (map (nth sel) [0..<length sel])"
    by (simp add: o_def)
  also have "\<dots> = map (\<lambda>i. map (\<lambda>c. cells_of (cdata c) ! i) df) sel"
    by (simp only: map_nth)
  also have "\<dots> = select keep (rows df)"
    by (simp add: sel_def rows_def select_map n_def)
  finally show ?thesis by (simp add: keep_def)
qed

text \<open>
  Claim C9: removing duplicate rows is idempotent. For every table whose columns have
  the same number of cells, \<open>remove_duplicates\<close> applied twice gives what it gives
  applied once.
\<close>

theorem remove_duplicates_idempotent:
  assumes "wf_table df"
  shows "remove_duplicates (remove_duplicates df) = remove_duplicates df"
proof -
  define keep where "keep = first_seen {} (rows df)"
  define m where "m = length (select keep (rows df))"
  have rd: "remove_duplicates df = map (\<lambda>c. c\<lparr>cdata := take_rows keep (cdata c)\<rparr>) df"
    by (simp add: remove_duplicates_def keep_def)
  have keep2: "first_seen {} (rows (remove_duplicates df)) = replicate m True"
    using rows_remove_duplicates [OF assms] first_seen_select [of "{}" "rows df"]
    by (simp add: keep_def m_def)
  have lenr: "length (rows df) = nrows df" by (simp add: rows_def)
  have len: "\<And>c. c \<in> set df \<Longrightarrow> length (cells_of (cdata c)) = nrows df"
    using assms by (simp add: wf_table_def list_all_iff ncells_cells_of)
  have lsel: "length (select keep xs) = m" if "length xs = nrows df" for xs :: "cell list"
    using that select_nth [of keep xs] select_nth [of keep "rows df"] lenr
    by (simp add: m_def)
  have same: "take_rows (replicate m True) (take_rows keep (cdata c)) = take_rows keep (cdata c)"
    if c: "c \<in> set df" for c
  proof -
    have "length (cells_of (take_rows keep (cdata c))) = m"
      using lsel [OF len [OF c]] by (simp add: cells_of_take_rows)
    then show ?thesis
      by (simp add: take_rows_all ncells_cells_of)
  qed
  have "remove_duplicates (remove_duplicates df) =
        map (\<lambda>c. c\<lparr>cdata := take_rows (replicate m True) (cdata c)\<rparr>) (remove_duplicates df)"
    by (simp add: remove_duplicates_def [of "remove_duplicates df"] keep2)
  also have "\<dots> = remove_duplicates df"
    unfolding rd by (simp add: o_def same)
  finally show ?thesis .
qed

theorem remove_duplicates_idempotent_witness:
  "wf_table [\<lparr>cname = ''A'', cdata = ObjCol [Some ''x'', Some ''y'', Some ''x'', None, None]\<rparr>,
             \<lparr>cname = ''B'', cdata = NumCol [Fin 1, Fin 2, Fin 1, NaN, NaN]\<rparr>]
   \<and> remove_duplicates
        [\<lparr>cname = ''A'', cdata = ObjCol [Some ''x'', Some ''y'', Some ''x'', None, None]\<rparr>,
         \<lparr>cname = ''B'', cdata = NumCol [Fin 1, Fin 2, Fin 1, NaN, NaN]\<rparr>]
       = [\<lparr>cname = ''A'', cdata = ObjCol [Some ''x'', Some ''y'', None]\<rparr>,
          \<lparr>cname = ''B'', cdata = NumCol [Fin 1, Fin 2, NaN]\<rparr>]
   \<and> remove_duplicates
        [\<lparr>cname = ''A'', cdata = ObjCol [Some ''x'', Some ''y'', None]\<rparr>,
         \<lparr>cname = ''B'', cdata = NumCol [Fin 1, Fin 2, NaN]\<rparr>]
       = [\<lparr>cname = ''A'', cdata = ObjCol [Some ''x'', Some ''y'', None]\<rparr>,
          \<lparr>cname = ''B'', cdata = NumCol [Fin 1, Fin 2, NaN]\<rparr>]"
proof -
  let ?T = "[\<lparr>cname = ''A'', cdata = ObjCol [Some ''x'', Some ''y'', Some ''x'', None, None]\<rparr>,
             \<lparr>cname = ''B'', cdata = NumCol [Fin 1, Fin 2, Fin 1, NaN, NaN]\<rparr>]"
  have wf: "wf_table ?T"
    by (simp add: wf_table_def nrows_def ncells_def)
  have run: "remove_duplicates ?T
       = [\<lparr>cname = ''A'', cdata = ObjCol [Some ''x'', Some ''y'', None]\<rparr>,
          \<lparr>cname = ''B'', cdata = NumCol [Fin 1, Fin 2, NaN]\<rparr>]"
    by (simp add: remove_duplicates_def rows_def nrows_def ncells_def cells_of_def
        take_rows_def upt_rec)
  from remove_duplicates_idempotent [OF wf] wf run show ?thesis
    by simp
qed


section \<open>Properties: loops over the labels of a table\<close>

lemma columns_setitem [simp]: "columns (setitem df col d) = columns df"
  by (simp add: columns_def setitem_def o_def if_distrib [of cname] cong: if_cong)

lemma length_setitem [simp]: "length (setitem df col d) = length df"
  by (simp add: setitem_def)

lemma filter_cname_distinct:
  "distinct (map cname df) \<Longrightarrow> c \<in> set df \<Longrightarrow> filter (\<lambda>c'. cname c' = cname c) df = [c]"
proof (induction df)
  case Nil
  then show ?case by simp
next
  case (Cons a df)
  show ?case
  proof (cases "a = c")
    case True
    have "cname c \<notin> cname ` set df"
      using Cons.prems True by simp
    then have "\<forall>x\<in>set df. cname x \<noteq> cname c"
      by (metis imageI)
    then have "filter (\<lambda>c'. cname c' = cname c) df = []"
      by (simp add: filter_empty_conv)
    with True show ?thesis by simp
  next
    case False
    with Cons.prems have "c \<in> set df" "cname a \<noteq> cname c" by auto
    with Cons show ?thesis by simp
  qed
qed

lemma getitem_distinct:
  "distinct (columns df) \<Longrightarrow> c \<in> set df \<Longrightarrow> getitem df (cname c) = Series (cdata c)"
  by (simp add: getitem_def columns_def filter_cname_distinct)

lemma setitem_distinct:
  assumes "distinct (columns df)" "c \<in> set df"
  shows "setitem df (cname c) (g (cdata c)) =
         map (\<lambda>c'. if cname c' = cname c then c'\<lparr>cdata := g (cdata c')\<rparr> else c') df"
proof -
  have "c' = c" if "c' \<in> set df" "cname c' = cname c" for c'
    using assms that by (auto simp: columns_def distinct_map dest: inj_onD)
  then show ?thesis
    unfolding setitem_def by (intro map_cong refl) auto
qed

lemma for_each_distinct:
  assumes "distinct (columns df)" "distinct cols" "set cols \<subseteq> set (columns df)"
    and body: "\<And>df' c. columns df' = columns df \<Longrightarrow> c \<in> set df' \<Longrightarrow> cname c \<in> set cols \<Longrightarrow>
                 body (cname c) df' = Inr (setitem df' (cname c) (g (cname c) (cdata c)))"
  shows "for_each body cols df =
         (map (\<lambda>c. if cname c \<in> set cols then c\<lparr>cdata := g (cname c) (cdata c)\<rparr> else c) df, None)"
  using assms
proof (induction cols arbitrary: df)
  case Nil
  then show ?case by simp
next
  case (Cons col cols)
  from Cons.prems(3) obtain c0 where c0: "c0 \<in> set df" "cname c0 = col"
    by (auto simp: columns_def)
  define df1 where "df1 = setitem df col (g col (cdata c0))"
  have b: "body col df = Inr df1"
    using Cons.prems(4) [of df c0] c0 by (simp add: df1_def)
  have df1: "df1 = map (\<lambda>c'. if cname c' = col then c'\<lparr>cdata := g col (cdata c')\<rparr> else c') df"
    using setitem_distinct [OF Cons.prems(1) c0(1), of "g col"] c0(2) by (simp add: df1_def)
  have cols1: "columns df1 = columns df" by (simp add: df1_def)
  have "for_each body cols df1 =
         (map (\<lambda>c. if cname c \<in> set cols then c\<lparr>cdata := g (cname c) (cdata c)\<rparr> else c) df1, None)"
  proof (rule Cons.IH)
    show "distinct (columns df1)" using Cons.prems(1) cols1 by simp
    show "distinct cols" using Cons.prems(2) by simp
    show "set cols \<subseteq> set (columns df1)" using Cons.prems(3) cols1 by simp
    show "body (cname c) df' = Inr (setitem df' (cname c) (g (cname c) (cdata c)))"
      if "columns df' = columns df1" "c \<in> set df'" "cname c \<in> set cols" for df' c
      using Cons.prems(4) [of df' c] that cols1 by simp
  qed
  moreover have "map (\<lambda>c. if cname c \<in> set cols then c\<lparr>cdata := g (cname c) (cdata c)\<rparr> else c) df1
      = map (\<lambda>c. if cname c \<in> set (col # cols) then c\<lparr>cdata := g (cname c) (cdata c)\<rparr> else c) df"
    unfolding df1 using Cons.prems(2) by (auto simp: o_def)
  ultimately show ?case using b by simp
qed

text \<open>The loops over all the labels of the table, in the form used below.\<close>

lemma setitem_same:
  assumes "distinct (columns df)" "c \<in> set df"
  shows "setitem df (cname c) (cdata c) = df"
  using setitem_distinct [OF assms, of "\<lambda>d. d"] by (simp add: map_idI)

lemma for_each_columns:
  assumes "distinct (columns df)"
    and body: "\<And>df' c. distinct (columns df') \<Longrightarrow> c \<in> set df' \<Longrightarrow>
                 body (cname c) df' = Inr (setitem df' (cname c) (g (cname c) (cdata c)))"
  shows "for_each body (columns df) df = (map (\<lambda>c. c\<lparr>cdata := g (cname c) (cdata c)\<rparr>) df, None)"
proof -
  have "for_each body (columns df) df =
         (map (\<lambda>c. if cname c \<in> set (columns df) then c\<lparr>cdata := g (cname c) (cdata c)\<rparr> else c) df, None)"
    using assms by (intro for_each_distinct) auto
  also have "map (\<lambda>c. if cname c \<in> set (columns df) then c\<lparr>cdata := g (cname c) (cdata c)\<rparr> else c) df
      = map (\<lambda>c. c\<lparr>cdata := g (cname c) (cdata c)\<rparr>) df"
    by (intro map_cong refl) (auto simp: columns_def)
  finally show ?thesis .
qed


text \<open>What every round of a loop keeps holds of the table the loop leaves, raising or not.\<close>

lemma for_each_invariant:
  assumes "P df" and step: "\<And>col df df'. P df \<Longrightarrow> body col df = Inr df' \<Longrightarrow> P df'"
  shows "P (fst (for_each body cols df))"
  using assms(1)
proof (induction cols arbitrary: df)
  case Nil
  then show ?case by simp
next
  case (Cons col cols)
  show ?case
  proof (cases "body col df")
    case (Inl e)
    with Cons.prems show ?thesis by simp
  next
    case (Inr df')
    with Cons.prems have "P df'" by (auto intro: step)
    with Cons.IH [of df'] Inr show ?thesis by simp
  qed
qed

lemma getitem_Series:
  assumes "getitem df col = Series d" "c \<in> set df" "cname c = col"
  shows "cdata c = d"
proof -
  from assms(1) obtain c0 where c0: "filter (\<lambda>c. cname c = col) df = [c0]" "cdata c0 = d"
    by (auto simp: getitem_def split: list.splits)
  have "c \<in> set (filter (\<lambda>c. cname c = col) df)" using assms(2,3) by simp
  with c0 show ?thesis by simp
qed


section \<open>Properties: text columns\<close>

lemma clean_text_columns_distinct:
  assumes "distinct (columns df)"
  shows "clean_text_columns df =
           (map (\<lambda>c. c\<lparr>cdata := text_column (cname c) (cdata c)\<rparr>) df, None)"
proof -
  define cols where "cols = map cname (filter (\<lambda>c. is_object (cdata c)) df)"
  have d: "distinct cols"
    using assms unfolding cols_def columns_def by (rule distinct_map_filter)
  have sub: "set cols \<subseteq> set (columns df)"
    by (auto simp: cols_def columns_def)
  have "for_each text_body cols df =
      (map (\<lambda>c. if cname c \<in> set cols then c\<lparr>cdata := text_column (cname c) (cdata c)\<rparr> else c) df,
       None)"
  proof (rule for_each_distinct [OF assms d sub])
    fix df' c assume "columns df' = columns df" "c \<in> set df'"
    then show "text_body (cname c) df' = Inr (setitem df' (cname c) (text_column (cname c) (cdata c)))"
      using assms by (simp add: text_body_def getitem_distinct)
  qed
  moreover have "(if cname c \<in> set cols then c\<lparr>cdata := text_column (cname c) (cdata c)\<rparr> else c)
        = c\<lparr>cdata := text_column (cname c) (cdata c)\<rparr>" if "c \<in> set df" for c
  proof (cases "is_object (cdata c)")
    case True
    with that have "cname c \<in> set cols" by (auto simp: cols_def)
    then show ?thesis by simp
  next
    case False
    then have "text_column (cname c) (cdata c) = cdata c"
      by (cases "cdata c") (simp_all add: text_column_def is_object_def)
    then show ?thesis by simp
  qed
  ultimately show ?thesis
    by (simp add: clean_text_columns_def cols_def cong: map_cong)
qed

lemma clean_text_nan_eval:
  "lower (strip ''nan'') = ''nan''" "filter keep_char ''nan'' = ''nan''"
  "join '' '' (map capitalize (split ''nan'')) = ''Nan''"
  "replace_char (CHR ''#'') [] ''nan'' = ''nan''" "replace_char (CHR ''#'') [] ''Nan'' = ''Nan''"
  by code_simp+

lemma clean_text_nan:
  "clean_text col ''nan'' = (if contains ''name'' (lower col) then ''Nan'' else ''nan'')"
  unfolding clean_text_def Let_def clean_text_nan_eval
  by (simp add: clean_text_nan_eval)

text \<open>
  Claim C10: in a textual column a missing cell is turned into the text \<^verbatim>\<open>nan\<close> and then
  cleaned like every other cell, so the cleaned column has no missing cell left.
\<close>

theorem clean_text_columns_missing:
  "(distinct (columns df) \<longrightarrow>
      clean_text_columns df = (map (\<lambda>c. c\<lparr>cdata := text_column (cname c) (cdata c)\<rparr>) df, None))
   \<and> text_column col (ObjCol xs) =
        ObjCol (map (\<lambda>x. Some (clean_text col (case x of None \<Rightarrow> ''nan'' | Some s \<Rightarrow> s))) xs)
   \<and> clean_text col ''nan'' = (if contains ''name'' (lower col) then ''Nan'' else ''nan'')
   \<and> missing_count (text_column col (ObjCol xs)) = 0"
  by (simp add: clean_text_columns_distinct clean_text_nan text_column_def astype_str_def
      missing_count_def o_def)

theorem clean_text_columns_missing_witness:
  "distinct (columns [\<lparr>cname = ''City'', cdata = ObjCol [Some '' Pune#'', None]\<rparr>,
                      \<lparr>cname = ''Full_Name'', cdata = ObjCol [None, Some ''  JOHN #smith'']\<rparr>,
                      \<lparr>cname = ''N'', cdata = NumCol [NaN, Fin 1]\<rparr>])
   \<and> clean_text_columns [\<lparr>cname = ''City'', cdata = ObjCol [Some '' Pune#'', None]\<rparr>,
                      \<lparr>cname = ''Full_Name'', cdata = ObjCol [None, Some ''  JOHN #smith'']\<rparr>,
                      \<lparr>cname = ''N'', cdata = NumCol [NaN, Fin 1]\<rparr>]
       = ([\<lparr>cname = ''City'', cdata = ObjCol [Some ''pune'', Some ''nan'']\<rparr>,
           \<lparr>cname = ''Full_Name'', cdata = ObjCol [Some ''Nan'', Some ''John Smith'']\<rparr>,
           \<lparr>cname = ''N'', cdata = NumCol [NaN, Fin 1]\<rparr>], None)"
proof -
  let ?T = "[\<lparr>cname = ''City'', cdata = ObjCol [Some '' Pune#'', None]\<rparr>,
             \<lparr>cname = ''Full_Name'', cdata = ObjCol [None, Some ''  JOHN #smith'']\<rparr>,
             \<lparr>cname = ''N'', cdata = NumCol [NaN, Fin 1]\<rparr>]"
  have d: "distinct (columns ?T)" by (simp add: columns_def)
  have e: "text_column ''City'' (ObjCol [Some '' Pune#'', None]) = ObjCol [Some ''pune'', Some ''nan'']"
    "text_column ''Full_Name'' (ObjCol [None, Some ''  JOHN #smith'']) = ObjCol [Some ''Nan'', Some ''John Smith'']"
    "text_column ''N'' (NumCol [NaN, Fin 1]) = NumCol [NaN, Fin 1]"
    by code_simp+
  from clean_text_columns_missing [of ?T] d e show ?thesis
    by simp
qed


section \<open>Properties: age columns\<close>

lemma normalize_age_column_distinct:
  assumes "distinct (columns df)"
  shows "normalize_age_column df =
     (map (\<lambda>c. c\<lparr>cdata := (if contains ''age'' (lower (cname c)) then age_column (cdata c) else cdata c)\<rparr>) df, None)"
  unfolding normalize_age_column_def
proof (rule for_each_columns [OF assms])
  fix df' c assume "distinct (columns df')" "c \<in> set df'"
  then show "age_body (cname c) df' = Inr (setitem df' (cname c)
        (if contains ''age'' (lower (cname c)) then age_column (cdata c) else cdata c))"
    by (simp add: age_body_def getitem_distinct setitem_same)
qed

lemma to_numeric_str_eval:
  "to_numeric_str ''30'' = Fin 30" "to_numeric_str ''22'' = Fin 22"
  "to_numeric_str ''20'' = Fin 20" "to_numeric_str ''40'' = Fin 40"
  "to_numeric_str ''unknown'' = NaN"
  by code_simp+

lemma age_cell:
  "to_numeric_cell (replace_cell (Some s)) =
     (if s = ''thirty'' then Fin 30 else if s = ''twenty two'' then Fin 22
      else if s = ''twenty'' then Fin 20 else if s = ''forty'' then Fin 40
      else if s = ''none'' then NaN else to_numeric_str s)"
  by (simp add: replace_cell_def to_numeric_cell_def text_to_num_def to_numeric_str_eval)

lemma age_cell_None: "to_numeric_cell (replace_cell None) = NaN"
  by (simp add: replace_cell_def to_numeric_cell_def)

text \<open>
  Claim C5, as stated: the lookup is matched against the trimmed, lower-cased cell. It
  fails: \<open>normalize_age_column\<close> compares the cell as it is stored, so \<^verbatim>\<open> Thirty \<close>,
  whose trimmed lower-case form is the key \<^verbatim>\<open>thirty\<close>, is not replaced and becomes
  missing. The text cleaner that runs before it in \<open>auto_clean\<close> does not always
  help: in a column labelled \<^verbatim>\<open>Manager_Name\<close>, whose label contains both \<^verbatim>\<open>age\<close> and
  \<^verbatim>\<open>name\<close>, it turns \<^verbatim>\<open>thirty\<close> into \<^verbatim>\<open>Thirty\<close>, which becomes missing as well.
\<close>

theorem normalize_age_column_untrimmed:
  "lower (strip '' Thirty '') = ''thirty''
   \<and> text_to_num ''thirty'' = Some (Some ''30'')
   \<and> normalize_age_column [\<lparr>cname = ''Age'', cdata = ObjCol [Some '' Thirty '']\<rparr>]
       = ([\<lparr>cname = ''Age'', cdata = NumCol [NaN]\<rparr>], None)
   \<and> and_then (clean_text_columns [\<lparr>cname = ''Manager_Name'', cdata = ObjCol [Some ''thirty'']\<rparr>])
         normalize_age_column
       = ([\<lparr>cname = ''Manager_Name'', cdata = NumCol [NaN]\<rparr>], None)"
  by code_simp

text \<open>
  Claim C5, amended: in every column whose label contains \<^verbatim>\<open>age\<close> (labels unique), a
  cell that is, as it is stored, exactly one of the five words of the lookup gets the
  word's number (\<^verbatim>\<open>none\<close> becomes missing); nothing is trimmed or put in lower case
  for the comparison. Every cell is then read as a number, a cell that cannot be read
  becoming the missing marker \<^verbatim>\<open>NaN\<close>; no exception is raised. The column
  \<^verbatim>\<open>thirty, 22, unknown\<close> becomes \<^verbatim>\<open>30, 22, NaN\<close>.
\<close>

theorem normalize_age_column_cells:
  "(distinct (columns df) \<longrightarrow>
      normalize_age_column df =
        (map (\<lambda>c. c\<lparr>cdata := (if contains ''age'' (lower (cname c))
                                then age_column (cdata c) else cdata c)\<rparr>) df, None))
   \<and> age_column (ObjCol xs) =
        NumCol (map (\<lambda>x. case x of
                            None \<Rightarrow> NaN
                          | Some s \<Rightarrow>
                              if s = ''thirty'' then Fin 30 else if s = ''twenty two'' then Fin 22
                              else if s = ''twenty'' then Fin 20 else if s = ''forty'' then Fin 40
                              else if s = ''none'' then NaN else to_numeric_str s) xs)
   \<and> age_column (NumCol ys) = NumCol ys
   \<and> normalize_age_column
        [\<lparr>cname = ''Age'', cdata = ObjCol [Some ''thirty'', Some ''22'', Some ''unknown'']\<rparr>]
       = ([\<lparr>cname = ''Age'', cdata = NumCol [Fin 30, Fin 22, NaN]\<rparr>], None)"
proof -
  have cells: "age_column (ObjCol xs) =
        NumCol (map (\<lambda>x. case x of
                            None \<Rightarrow> NaN
                          | Some s \<Rightarrow>
                              if s = ''thirty'' then Fin 30 else if s = ''twenty two'' then Fin 22
                              else if s = ''twenty'' then Fin 20 else if s = ''forty'' then Fin 40
                              else if s = ''none'' then NaN else to_numeric_str s) xs)" for xs
    unfolding age_column_def coldata.case
    by (rule arg_cong [where f = NumCol], rule map_cong [OF refl])
       (simp add: age_cell age_cell_None split: option.split)
  have name: "contains ''age'' (lower ''Age'')" by code_simp
  have ex: "normalize_age_column
        [\<lparr>cname = ''Age'', cdata = ObjCol [Some ''thirty'', Some ''22'', Some ''unknown'']\<rparr>]
       = ([\<lparr>cname = ''Age'', cdata = NumCol [Fin 30, Fin 22, NaN]\<rparr>], None)"
    by (simp add: normalize_age_column_distinct columns_def name cells to_numeric_str_eval)
  show ?thesis
    using cells [of xs] ex by (simp add: normalize_age_column_distinct age_column_def)
qed

theorem normalize_age_column_cells_witness:
  "distinct (columns [\<lparr>cname = ''Page'', cdata = ObjCol [Some ''forty'', Some ''Forty'', Some ''forty one'', None]\<rparr>,
                      \<lparr>cname = ''City'', cdata = ObjCol [Some ''twenty'', Some ''x'', Some ''y'', None]\<rparr>])
   \<and> normalize_age_column
        [\<lparr>cname = ''Page'', cdata = ObjCol [Some ''forty'', Some ''Forty'', Some ''forty one'', None]\<rparr>,
         \<lparr>cname = ''City'', cdata = ObjCol [Some ''twenty'', Some ''x'', Some ''y'', None]\<rparr>]
       = ([\<lparr>cname = ''Page'', cdata = NumCol [Fin 40, NaN, NaN, NaN]\<rparr>,
           \<lparr>cname = ''City'', cdata = ObjCol [Some ''twenty'', Some ''x'', Some ''y'', None]\<rparr>], None)"
proof -
  let ?T = "[\<lparr>cname = ''Page'', cdata = ObjCol [Some ''forty'', Some ''Forty'', Some ''forty one'', None]\<rparr>,
             \<lparr>cname = ''City'', cdata = ObjCol [Some ''twenty'', Some ''x'', Some ''y'', None]\<rparr>]"
  have d: "distinct (columns ?T)" by (simp add: columns_def)
  have e: "contains ''age'' (lower ''Page'')" "\<not> contains ''age'' (lower ''City'')"
    "age_column (ObjCol [Some ''forty'', Some ''Forty'', Some ''forty one'', None]) = NumCol [Fin 40, NaN, NaN, NaN]"
    by code_simp+
  from normalize_age_column_cells [of ?T] d e show ?thesis
    by simp
qed


section \<open>Properties: numerals\<close>

lemma roman_get_nonneg: "0 \<le> roman_get ch"
  by (simp add: roman_get_def roman_map_def)

text \<open>The loop from the right computes the subtractive value.\<close>

lemma roman_loop:
  "foldr roman_step s (0, 0) =
     (subtractive_value (map roman_get s), case s of [] \<Rightarrow> 0 | ch # _ \<Rightarrow> roman_get ch)"
proof (induction s)
  case Nil
  show ?case by simp
next
  case (Cons ch s)
  show ?case
  proof (cases s)
    case Nil
    then show ?thesis using roman_get_nonneg [of ch] by simp
  next
    case (Cons ch' s')
    with Cons.IH show ?thesis by simp
  qed
qed

lemma roman_to_int_subtractive:
  "roman_to_int s = subtractive_value (map roman_get (lower s))"
  by (simp add: roman_to_int_def foldr_conv_fold [symmetric] roman_loop)

lemma is_roman_lower: "is_roman c \<Longrightarrow> lower_char c = c"
  by (auto simp: is_roman_def lower_char_def is_upper_def)

lemma lower_roman: "list_all is_roman s \<Longrightarrow> lower s = s"
  by (induction s) (simp_all add: lower_def is_roman_lower)

lemma parse_salary_eval:
  "parse_salary ''IV'' = Some (Fin 4)" "parse_salary ''xl'' = Some (Fin 40)"
  "parse_salary ''$1,200'' = Some (Fin 1200)" "parse_salary ''15k'' = Some (Fin 15000)"
  "parse_salary ''abc'' = None"
  by code_simp+

text \<open>
  Claim C2: when the cleaned text of a cell (lower case, \<^verbatim>\<open>$\<close> and \<^verbatim>\<open>,\<close> removed,
  trimmed) is one or more of the letters \<^verbatim>\<open>i v x l c d m\<close>, \<open>parse_salary\<close> gives the
  subtractive value of the letters read from the right, whatever the letters are;
  \<^verbatim>\<open>IV\<close> gives 4, \<^verbatim>\<open>xl\<close> 40, \<^verbatim>\<open>$1,200\<close> 1200, \<^verbatim>\<open>15k\<close> 15000, and \<^verbatim>\<open>abc\<close> gives
  \<^verbatim>\<open>None\<close>.
\<close>

theorem parse_salary_numerals:
  "(salary_text v \<noteq> [] \<and> list_all is_roman (salary_text v) \<longrightarrow>
      parse_salary v = Some (Fin (of_int (subtractive_value (map roman_get (salary_text v))))))
   \<and> parse_salary ''IV'' = Some (Fin 4)
   \<and> parse_salary ''xl'' = Some (Fin 40)
   \<and> parse_salary ''$1,200'' = Some (Fin 1200)
   \<and> parse_salary ''15k'' = Some (Fin 15000)
   \<and> parse_salary ''abc'' = None"
proof -
  have "parse_salary v = Some (Fin (of_int (subtractive_value (map roman_get (salary_text v)))))"
    if "salary_text v \<noteq> []" "list_all is_roman (salary_text v)"
    using that by (simp add: parse_salary_def roman_to_int_subtractive lower_roman)
  then show ?thesis
    by (simp add: parse_salary_eval)
qed

theorem parse_salary_numerals_witness:
  "salary_text '' $MIX, '' = ''mix'' \<and> list_all is_roman ''mix''
   \<and> map roman_get ''mix'' = [1000, 1, 10]
   \<and> parse_salary '' $MIX, '' = Some (Fin 1009)"
proof -
  have e: "salary_text '' $MIX, '' = ''mix''" "list_all is_roman ''mix''"
    "map roman_get ''mix'' = [1000, 1, 10]"
    by code_simp+
  from parse_salary_numerals [of "'' $MIX, ''"] e show ?thesis
    by simp
qed


section \<open>Properties: dates\<close>

lemma is_digit_digit_char: "is_digit (digit_char n)"
proof -
  have "n mod 10 \<in> set [0..<10]" by simp
  moreover have "list_all (\<lambda>k. is_digit (char_of (48 + k))) [0..<10]"
    by code_simp
  ultimately show ?thesis
    unfolding digit_char_def list_all_iff by blast
qed

lemma pad_digits: "n < 10 ^ k \<Longrightarrow> length (pad k n) = k \<and> list_all is_digit (pad k n)"
proof (induction k arbitrary: n)
  case 0
  then show ?case by simp
next
  case (Suc k)
  then have "n div 10 < 10 ^ k" by (simp add: less_mult_imp_div_less mult.commute)
  with Suc.IH [of "n div 10"] show ?case by (simp add: is_digit_digit_char)
qed

lemma iso_form_append:
  assumes "length y = 4" "length m = 2" "length d = 2"
    "list_all is_digit y" "list_all is_digit m" "list_all is_digit d"
  shows "iso_form (y @ ''-'' @ m @ ''-'' @ d)"
  using assms by (simp add: iso_form_def nth_append)

lemma days_in_month_le: "days_in_month y m \<le> 31"
  by (simp add: days_in_month_def)

lemma pad_long: "10 ^ k \<le> n \<Longrightarrow> pad 0 n = pad (Suc k) n"
proof (induction k arbitrary: n)
  case 0
  then show ?case by simp
next
  case (Suc k)
  have "0 < (10::nat) ^ Suc k" by simp
  with Suc.prems have pos: "n \<noteq> 0" by linarith
  have "(10 * 10 ^ k) div 10 \<le> n div 10"
    using Suc.prems by (intro div_le_mono) simp
  then have "10 ^ k \<le> n div 10" by simp
  with Suc.IH [of "n div 10"] pos show ?case by simp
qed

lemma pad_year:
  assumes "1000 \<le> n"
  shows "pad 1 n = pad 4 n"
proof -
  have "10 ^ Suc (Suc 0) \<le> n div 10" using assms by simp
  then have a: "pad 0 (n div 10) = pad (Suc (Suc (Suc 0))) (n div 10)"
    by (rule pad_long)
  have "pad (Suc 0) n = pad 0 (n div 10) @ [digit_char n]"
    by (simp only: pad.simps(2))
  also have "\<dots> = pad (Suc (Suc (Suc 0))) (n div 10) @ [digit_char n]"
    by (simp only: a)
  also have "\<dots> = pad (Suc (Suc (Suc (Suc 0)))) n"
    by (simp only: pad.simps(2))
  finally have "pad (Suc 0) n = pad (Suc (Suc (Suc (Suc 0)))) n" .
  moreover have "(4::nat) = Suc (Suc (Suc (Suc 0)))" by simp
  ultimately show ?thesis by (simp only: One_nat_def)
qed

text \<open>From the year 1000 on the text of a date has the form of the spec.\<close>

lemma iso_form_strftime:
  assumes "valid_date d" "1000 \<le> year d"
  shows "iso_form (strftime d)"
proof -
  have "year d < 10 ^ 4" "month d < 10 ^ 2" "day d < 10 ^ 2"
    using assms(1) days_in_month_le [of "year d" "month d"] by (simp_all add: valid_date_def)
  then show ?thesis
    unfolding strftime_def pad_year [OF assms(2)] using pad_digits by (intro iso_form_append) blast+
qed

lemma strftime_not_empty: "strftime d \<noteq> []"
  by (simp add: strftime_def)

lemma strptime_valid: "strptime s fmt = Some d \<Longrightarrow> valid_date d"
  by (auto simp: strptime_def Let_def split: list.splits prod.splits if_splits)


lemma try_formats_valid: "try_formats s fmts = Some d \<Longrightarrow> valid_date d"
  by (induction fmts) (auto split: option.splits dest: strptime_valid)


lemma short_year_eval:
  "strptime ''01-01-0999'' ''%d-%m-%Y'' = Some \<lparr>year = 999, month = 1, day = 1\<rparr>"
  "try_formats (strip ''01-01-0999'') known_formats = Some \<lparr>year = 999, month = 1, day = 1\<rparr>"
  "strftime \<lparr>year = 999, month = 1, day = 1\<rparr> = ''999-01-01''"
  "\<not> iso_form ''999-01-01''"
  "truthy (Some ''999-01-01'')"
  by code_simp+

lemma parse_date_columns_distinct:
  assumes "distinct (columns df)"
  shows "parse_date_columns to_datetime df =
           (map (\<lambda>c. c\<lparr>cdata := date_column to_datetime (cdata c)\<rparr>) df, None)"
  unfolding parse_date_columns_def
proof (rule for_each_columns [OF assms])
  fix df' c assume "distinct (columns df')" "c \<in> set df'"
  then show "date_body to_datetime (cname c) df' =
      Inr (setitem df' (cname c) (date_column to_datetime (cdata c)))"
    by (simp add: date_body_def getitem_distinct)
qed

lemma parse_date_valid:
  assumes "\<forall>v d. to_datetime v = Some d \<longrightarrow> valid_date d"
    and "parse_date to_datetime v = Some d"
  shows "valid_date d"
  using assms by (auto simp: parse_date_def split: option.splits dest: try_formats_valid)

lemma truthy_clean_date: "truthy (clean_date to_datetime v) \<longleftrightarrow> parse_date to_datetime v \<noteq> None"
  by (cases "parse_date to_datetime v") (simp_all add: truthy_def clean_date_def strftime_not_empty)

lemma date_column_unchanged:
  assumes "\<forall>x\<in>set xs. parse_date to_datetime x = None"
  shows "date_column to_datetime (ObjCol xs) = ObjCol xs"
  using assms by (simp add: date_column_def Let_def list_ex_iff truthy_clean_date)

lemma date_column_rewritten:
  assumes "\<exists>x\<in>set xs. parse_date to_datetime x \<noteq> None"
  shows "date_column to_datetime (ObjCol xs) = ObjCol (map (clean_date to_datetime) xs)"
  using assms by (simp add: date_column_def Let_def list_ex_iff truthy_clean_date)

lemma clean_date_iso:
  assumes "\<forall>v d. to_datetime v = Some d \<longrightarrow> valid_date d"
    and "parse_date to_datetime x = Some d" "1000 \<le> year d"
  shows "\<exists>s. clean_date to_datetime x = Some s \<and> iso_form s"
proof -
  from assms(1,2) have "valid_date d" by (rule parse_date_valid)
  with assms(2,3) show ?thesis by (simp add: clean_date_def iso_form_strftime)
qed

text \<open>
  Claim C3 says that every cell the date normalizer writes has the form \<^verbatim>\<open>YYYY-MM-DD\<close>.
  The code writes \<^verbatim>\<open>parsed.strftime('%Y-%m-%d')\<close>, which gives a shorter year for a
  date before the year 1000: the cell \<^verbatim>\<open>01-01-0999\<close> parses with the first format and
  the column is rewritten to \<^verbatim>\<open>999-01-01\<close>, whatever the fallback is.
\<close>

theorem parse_date_columns_short_year:
  "strptime ''01-01-0999'' ''%d-%m-%Y'' = Some \<lparr>year = 999, month = 1, day = 1\<rparr>
   \<and> parse_date_columns to_datetime [\<lparr>cname = ''When'', cdata = ObjCol [Some ''01-01-0999'']\<rparr>]
       = ([\<lparr>cname = ''When'', cdata = ObjCol [Some ''999-01-01'']\<rparr>], None)
   \<and> \<not> iso_form ''999-01-01''"
proof -
  have c: "clean_date to_datetime (Some ''01-01-0999'') = Some ''999-01-01''"
    by (simp only: clean_date_def parse_date_def str_cell_def option.case short_year_eval
        option.map)
  have "date_column to_datetime (ObjCol [Some ''01-01-0999'']) = ObjCol [Some ''999-01-01'']"
    by (simp add: date_column_def c short_year_eval)
  then have "parse_date_columns to_datetime [\<lparr>cname = ''When'', cdata = ObjCol [Some ''01-01-0999'']\<rparr>]
       = ([\<lparr>cname = ''When'', cdata = ObjCol [Some ''999-01-01'']\<rparr>], None)"
    by (simp add: parse_date_columns_distinct columns_def)
  then show ?thesis
    by (simp only: short_year_eval simp_thms)
qed

text \<open>
  What holds of the date normalizer: on a table with unique labels it raises nothing and
  treats every column on its own. A numeric column and a textual column none of whose
  cells parses as a date are left as they are; a textual column with a cell that parses
  is rewritten, a cell that does not parse becoming missing and a cell that parses to a
  date from the year 1000 on becoming that date in the form \<^verbatim>\<open>YYYY-MM-DD\<close>, provided
  the dates of the fallback \<^verbatim>\<open>pd.to_datetime\<close> are dates of the calendar.
\<close>

theorem parse_date_columns_from_1000:
  "(distinct (columns df) \<longrightarrow>
      parse_date_columns to_datetime df =
        (map (\<lambda>c. c\<lparr>cdata := date_column to_datetime (cdata c)\<rparr>) df, None))
   \<and> date_column to_datetime (NumCol ys) = NumCol ys
   \<and> ((\<forall>x\<in>set xs. parse_date to_datetime x = None) \<longrightarrow>
         date_column to_datetime (ObjCol xs) = ObjCol xs)
   \<and> ((\<exists>x\<in>set xs. parse_date to_datetime x \<noteq> None) \<longrightarrow>
         date_column to_datetime (ObjCol xs) = ObjCol (map (clean_date to_datetime) xs))
   \<and> (parse_date to_datetime x = None \<longrightarrow> clean_date to_datetime x = None)
   \<and> ((\<forall>v d. to_datetime v = Some d \<longrightarrow> valid_date d)
        \<and> parse_date to_datetime x = Some d \<and> 1000 \<le> year d \<longrightarrow>
         (\<exists>s. clean_date to_datetime x = Some s \<and> iso_form s))"
  using parse_date_columns_distinct [of df to_datetime] date_column_unchanged [of xs to_datetime]
    date_column_rewritten [of xs to_datetime] clean_date_iso [of to_datetime x d]
  by (simp add: date_column_def clean_date_def)

theorem parse_date_columns_from_1000_witness:
  "parse_date_columns (\<lambda>v. if v = Some ''next friday''
                             then Some \<lparr>year = 2024, month = 5, day = 17\<rparr> else None)
     [\<lparr>cname = ''When'', cdata = ObjCol [Some ''01-02-2023'', Some ''next friday'', Some ''x'', None]\<rparr>,
      \<lparr>cname = ''City'', cdata = ObjCol [Some ''pune'', Some ''12'', Some ''x'', None]\<rparr>,
      \<lparr>cname = ''N'', cdata = NumCol [Fin 1, Fin 2, NaN, NaN]\<rparr>]
   = ([\<lparr>cname = ''When'', cdata = ObjCol [Some ''2023-02-01'', Some ''2024-05-17'', None, None]\<rparr>,
       \<lparr>cname = ''City'', cdata = ObjCol [Some ''pune'', Some ''12'', Some ''x'', None]\<rparr>,
       \<lparr>cname = ''N'', cdata = NumCol [Fin 1, Fin 2, NaN, NaN]\<rparr>], None)
   \<and> iso_form ''2024-05-17''"
proof -
  let ?td = "\<lambda>v. if v = Some ''next friday''
                  then Some \<lparr>year = 2024, month = 5, day = 17\<rparr> else None"
  let ?xs = "[Some ''01-02-2023'', Some ''next friday'', Some ''x'', None]"
  let ?zs = "[Some ''pune'', Some ''12'', Some ''x'', None]"
  let ?T = "[\<lparr>cname = ''When'', cdata = ObjCol ?xs\<rparr>, \<lparr>cname = ''City'', cdata = ObjCol ?zs\<rparr>,
             \<lparr>cname = ''N'', cdata = NumCol [Fin 1, Fin 2, NaN, NaN]\<rparr>]"
  let ?d = "\<lparr>year = 2024, month = 5, day = 17\<rparr>"
  have d: "distinct (columns ?T)" by (simp add: columns_def)
  have "valid_date ?d" by code_simp
  then have v: "\<forall>v d. ?td v = Some d \<longrightarrow> valid_date d" by auto
  have p: "map (parse_date ?td) ?xs =
             [Some \<lparr>year = 2023, month = 2, day = 1\<rparr>, Some ?d, None, None]"
    "map (parse_date ?td) ?zs = [None, None, None, None]"
    by code_simp+
  have c: "map (clean_date ?td) ?xs = [Some ''2023-02-01'', Some ''2024-05-17'', None, None]"
    by code_simp
  have some: "\<exists>x\<in>set ?xs. parse_date ?td x \<noteq> None" using p(1) by simp
  have none: "\<forall>x\<in>set ?zs. parse_date ?td x = None" using p(2) by simp
  have pf: "parse_date ?td (Some ''next friday'') = Some ?d" "1000 \<le> year ?d"
    using p(1) by simp_all
  have 1: "date_column ?td (ObjCol ?xs) = ObjCol (map (clean_date ?td) ?xs)"
    and iso: "\<exists>s. clean_date ?td (Some ''next friday'') = Some s \<and> iso_form s"
    using parse_date_columns_from_1000 [of ?T ?td "[]" ?xs "Some ''next friday''" ?d] some v pf
    by blast+
  have 2: "date_column ?td (ObjCol ?zs) = ObjCol ?zs"
    and 3: "parse_date_columns ?td ?T = (map (\<lambda>c. c\<lparr>cdata := date_column ?td (cdata c)\<rparr>) ?T, None)"
    and 4: "date_column ?td (NumCol [Fin 1, Fin 2, NaN, NaN]) = NumCol [Fin 1, Fin 2, NaN, NaN]"
    using parse_date_columns_from_1000 [of ?T ?td "[Fin 1, Fin 2, NaN, NaN]" ?zs] none d by blast+
  have "iso_form ''2024-05-17''"
    using iso c by auto
  moreover have "parse_date_columns ?td ?T =
      ([\<lparr>cname = ''When'', cdata = ObjCol [Some ''2023-02-01'', Some ''2024-05-17'', None, None]\<rparr>,
        \<lparr>cname = ''City'', cdata = ObjCol ?zs\<rparr>,
        \<lparr>cname = ''N'', cdata = NumCol [Fin 1, Fin 2, NaN, NaN]\<rparr>], None)"
    unfolding 3 by (simp add: 1 [unfolded c] 2 4)
  ultimately show ?thesis by simp
qed





section \<open>Properties: missing values\<close>

lemma fold_max_Max: "fold max ns (a::nat) = Max (insert a (set ns))"
  using Max.set_eq_fold [of a ns] by simp

lemma top_count:
  fixes vals :: "'a list"
  defines "mx \<equiv> fold max (map (count_list vals) vals) (0::nat)"
  shows "v \<in> set vals \<Longrightarrow> count_list vals v \<le> mx"
    and "vals \<noteq> [] \<Longrightarrow> \<exists>v\<in>set vals. count_list vals v = mx"
proof -
  have mx: "mx = Max (insert 0 (count_list vals ` set vals))"
    by (simp add: mx_def fold_max_Max)
  show le: "count_list vals v \<le> mx" if "v \<in> set vals" for v
    unfolding mx using that by (intro Max_ge) auto
  show "\<exists>v\<in>set vals. count_list vals v = mx" if "vals \<noteq> []"
  proof -
    from that obtain w where w: "w \<in> set vals" by (cases vals) auto
    then have "count_list vals w \<noteq> 0" by (simp only: count_list_0_iff not_not)
    then have "0 < count_list vals w" by simp
    with le [OF w] have "mx \<noteq> 0" by simp
    moreover have "mx \<in> insert 0 (count_list vals ` set vals)"
      unfolding mx by (rule Max_in) auto
    ultimately show ?thesis by auto
  qed
qed

lemma most_frequent_top:
  "most_frequent v vals \<longleftrightarrow>
     v \<in> set vals \<and> count_list vals v = fold max (map (count_list vals) vals) 0"
proof (cases "vals = []")
  case True
  then show ?thesis by (simp add: most_frequent_def)
next
  case False
  from top_count(2) [OF False] obtain w where
    w: "w \<in> set vals" "count_list vals w = fold max (map (count_list vals) vals) 0" by blast
  show ?thesis
  proof
    assume mf: "most_frequent v vals"
    then have "count_list vals w \<le> count_list vals v" "v \<in> set vals"
      using w(1) by (auto simp: most_frequent_def)
    with top_count(1) [of v vals] w(2) show
      "v \<in> set vals \<and> count_list vals v = fold max (map (count_list vals) vals) 0"
      by simp
  next
    assume "v \<in> set vals \<and> count_list vals v = fold max (map (count_list vals) vals) 0"
    then show "most_frequent v vals"
      using top_count(1) [of _ vals] by (auto simp: most_frequent_def)
  qed
qed

lemma set_modes: "set (modes xs) = {v. most_frequent v (present xs)}"
proof -
  have "set (modes xs) = {v \<in> set (present xs).
      count_list (present xs) v = fold max (map (count_list (present xs)) (present xs)) 0}"
    by (simp add: modes_def Let_def)
  also have "\<dots> = {v. most_frequent v (present xs)}"
    by (simp only: most_frequent_top)
  finally show ?thesis .
qed

lemma sorted_modes: "sorted (modes xs)"
  by (simp add: modes_def Let_def)

lemma modes_not_empty:
  assumes "present xs \<noteq> []"
  shows "modes xs \<noteq> []"
proof -
  from top_count(2) [OF assms] obtain v where "most_frequent v (present xs)"
    by (auto simp: most_frequent_top)
  then have "v \<in> set (modes xs)" by (simp add: set_modes)
  then show ?thesis by auto
qed

text \<open>The value that fills a textual column: the least of the most frequent values.\<close>

lemma modes_head:
  assumes "modes xs = m # ms"
  shows "most_frequent m (present xs) \<and> (\<forall>v. most_frequent v (present xs) \<longrightarrow> m \<le> v)"
proof -
  have "m \<in> set (modes xs)" using assms by simp
  then have 1: "most_frequent m (present xs)" by (simp add: set_modes)
  have "\<forall>v\<in>set (modes xs). m \<le> v"
    using sorted_modes [of xs] assms by auto
  then have "\<forall>v. most_frequent v (present xs) \<longrightarrow> m \<le> v"
    by (simp add: set_modes)
  with 1 show ?thesis by simp
qed

lemma present_not_empty:
  assumes "fraction_le (ObjCol xs) threshold" "threshold < 1"
  shows "present xs \<noteq> []"
proof -
  let ?k = "length (filter (\<lambda>x. x = None) xs)"
  have n: "length xs \<noteq> 0" and le: "of_nat ?k / of_nat (length xs) \<le> threshold"
    using assms(1) by (simp_all add: fraction_le_def ncells_def missing_count_def)
  have "(of_nat ?k :: rat) / of_nat (length xs) < 1" using le assms(2) by simp
  then have "(of_nat ?k :: rat) < of_nat (length xs)"
    using n by (simp add: divide_less_eq)
  then have "?k < length xs" by simp
  then have "filter (\<lambda>x. x = None) xs \<noteq> xs" by auto
  then have "\<not> (\<forall>x\<in>set xs. x = None)"
    by (simp only: filter_id_conv not_False_eq_True)
  then obtain x where "x \<in> set xs" "x \<noteq> None" by blast
  then obtain s where "Some s \<in> set xs" by (cases x) auto
  then have "s \<in> set (present xs)" by (force simp: present_def)
  then show ?thesis by auto
qed

lemma fill_column_ok:
  assumes "fraction_le d threshold" "threshold < 1"
  shows "\<exists>d'. fill_column d = Inr d'"
proof (cases d)
  case (ObjCol xs)
  with assms have "modes xs \<noteq> []" by (simp add: present_not_empty modes_not_empty)
  with ObjCol show ?thesis by (auto simp: fill_column_def split: list.splits)
next
  case (NumCol ys)
  then show ?thesis by (simp add: fill_column_def)
qed

lemma handle_missing_values_distinct:
  assumes "distinct (columns df)" "threshold < 1"
  shows "handle_missing_values threshold df =
           (map (\<lambda>c. c\<lparr>cdata := impute threshold (cdata c)\<rparr>) df, None)"
  unfolding handle_missing_values_def
proof (rule for_each_columns [OF assms(1)])
  fix df' c assume d: "distinct (columns df')" "c \<in> set df'"
  show "missing_body threshold (cname c) df' =
      Inr (setitem df' (cname c) (impute threshold (cdata c)))"
  proof (cases "fraction_le (cdata c) threshold")
    case True
    with fill_column_ok [OF True assms(2)] d show ?thesis
      by (auto simp: missing_body_def getitem_distinct impute_def)
  next
    case False
    with d show ?thesis
      by (simp add: missing_body_def getitem_distinct impute_def setitem_same)
  qed
qed

lemma impute_eval:
  "handle_missing_values (2 / 5) [\<lparr>cname = ''A'', cdata = ObjCol [Some ''b'', Some ''a'', None]\<rparr>]
     = ([\<lparr>cname = ''A'', cdata = ObjCol [Some ''b'', Some ''a'', Some ''a'']\<rparr>], None)"
  "first_mode (present [Some ''b'', Some ''a'', None]) = Some ''b''"
  by code_simp+

text \<open>
  Claim C4, as stated: among equally frequent values the one that occurs first in the
  column fills the gaps. It fails: in the column \<^verbatim>\<open>b, a, missing\<close>, a third of which is
  missing, \<^verbatim>\<open>b\<close> comes first, and the gap is filled with \<^verbatim>\<open>a\<close>, since \<^verbatim>\<open>mode()\<close> is sorted.
\<close>

theorem handle_missing_values_tie:
  "first_mode (present [Some ''b'', Some ''a'', None]) = Some ''b''
   \<and> handle_missing_values (2 / 5)
         [\<lparr>cname = ''A'', cdata = ObjCol [Some ''b'', Some ''a'', None]\<rparr>]
       = ([\<lparr>cname = ''A'', cdata = ObjCol [Some ''b'', Some ''a'', Some ''a'']\<rparr>], None)"
  by (simp only: impute_eval simp_thms)

text \<open>
  Claim C4, amended: on a table with unique labels and for a threshold below 1 (0.4 by
  default) nothing is raised and every column is treated on its own. A column whose
  share of missing cells is at most the threshold has its missing cells filled: a
  textual column with a most frequent value among its cells, the least one in the order
  of strings when several are equally frequent; a numeric column with the median of its
  cells. A column whose share of missing cells is above the threshold, and a column
  without cells, is left as it is.
\<close>

theorem handle_missing_values_fill:
  "(distinct (columns df) \<and> threshold < 1 \<longrightarrow>
      handle_missing_values threshold df =
        (map (\<lambda>c. c\<lparr>cdata := impute threshold (cdata c)\<rparr>) df, None))
   \<and> (fraction_le (ObjCol xs) threshold \<and> threshold < 1 \<longrightarrow>
        (\<exists>m. impute threshold (ObjCol xs) =
                ObjCol (map (\<lambda>x. case x of None \<Rightarrow> Some m | Some s \<Rightarrow> Some s) xs)
             \<and> most_frequent m (present xs)
             \<and> (\<forall>v. most_frequent v (present xs) \<longrightarrow> m \<le> v)))
   \<and> (fraction_le (NumCol ys) threshold \<longrightarrow>
        impute threshold (NumCol ys) = NumCol (map (\<lambda>x. if x = NaN then median ys else x) ys))
   \<and> (\<not> fraction_le d threshold \<longrightarrow> impute threshold d = d)"
proof -
  have obj: "\<exists>m. impute threshold (ObjCol xs) =
                ObjCol (map (\<lambda>x. case x of None \<Rightarrow> Some m | Some s \<Rightarrow> Some s) xs)
             \<and> most_frequent m (present xs)
             \<and> (\<forall>v. most_frequent v (present xs) \<longrightarrow> m \<le> v)"
    if le: "fraction_le (ObjCol xs) threshold" and thr: "threshold < 1"
  proof -
    from le thr have "modes xs \<noteq> []" by (simp add: present_not_empty modes_not_empty)
    then obtain m ms where m: "modes xs = m # ms" by (cases "modes xs") auto
    then have "impute threshold (ObjCol xs) =
        ObjCol (map (\<lambda>x. case x of None \<Rightarrow> Some m | Some s \<Rightarrow> Some s) xs)"
      using le by (simp add: impute_def fill_column_def fillna_obj_def)
    with modes_head [OF m] show ?thesis by blast
  qed
  have num: "impute threshold (NumCol ys) = NumCol (map (\<lambda>x. if x = NaN then median ys else x) ys)"
    if "fraction_le (NumCol ys) threshold"
    using that by (simp add: impute_def fill_column_def fillna_num_def)
  have rest: "impute threshold d = d" if "\<not> fraction_le d threshold"
    using that by (simp add: impute_def)
  show ?thesis
    using handle_missing_values_distinct [of df threshold] obj num rest by blast
qed

theorem handle_missing_values_fill_witness:
  "handle_missing_values (2 / 5)
     [\<lparr>cname = ''City'', cdata = ObjCol [Some ''pune'', None, Some ''agra'', Some ''pune'', Some ''agra'']\<rparr>,
      \<lparr>cname = ''Age'', cdata = NumCol [Fin 30, Fin 22, NaN, Fin 40, NaN]\<rparr>,
      \<lparr>cname = ''Note'', cdata = ObjCol [None, None, Some ''x'', None, Some ''y'']\<rparr>]
   = ([\<lparr>cname = ''City'', cdata = ObjCol [Some ''pune'', Some ''agra'', Some ''agra'', Some ''pune'', Some ''agra'']\<rparr>,
       \<lparr>cname = ''Age'', cdata = NumCol [Fin 30, Fin 22, Fin 30, Fin 40, Fin 30]\<rparr>,
       \<lparr>cname = ''Note'', cdata = ObjCol [None, None, Some ''x'', None, Some ''y'']\<rparr>], None)"
proof -
  let ?T = "[\<lparr>cname = ''City'', cdata = ObjCol [Some ''pune'', None, Some ''agra'', Some ''pune'', Some ''agra'']\<rparr>,
      \<lparr>cname = ''Age'', cdata = NumCol [Fin 30, Fin 22, NaN, Fin 40, NaN]\<rparr>,
      \<lparr>cname = ''Note'', cdata = ObjCol [None, None, Some ''x'', None, Some ''y'']\<rparr>]"
  have d: "distinct (columns ?T)" "(2 / 5 :: rat) < 1" by (simp_all add: columns_def)
  have e: "impute (2 / 5) (ObjCol [Some ''pune'', None, Some ''agra'', Some ''pune'', Some ''agra''])
             = ObjCol [Some ''pune'', Some ''agra'', Some ''agra'', Some ''pune'', Some ''agra'']"
    "impute (2 / 5) (NumCol [Fin 30, Fin 22, NaN, Fin 40, NaN]) = NumCol [Fin 30, Fin 22, Fin 30, Fin 40, Fin 30]"
    "impute (2 / 5) (ObjCol [None, None, Some ''x'', None, Some ''y''])
             = ObjCol [None, None, Some ''x'', None, Some ''y'']"
    by code_simp+
  from handle_missing_values_fill [of ?T "2 / 5"] d e show ?thesis
    by simp
qed

lemma ncells_fill_column: "fill_column d = Inr d' \<Longrightarrow> ncells d' = ncells d"
  by (auto simp: fill_column_def ncells_def fillna_obj_def fillna_num_def
      split: coldata.splits list.splits)

text \<open>One round of the loop: labels and sizes stay, and so does every column above the threshold.\<close>

lemma missing_body_frame:
  assumes "missing_body threshold col df = Inr df'"
  shows "map cname df' = map cname df
     \<and> map (\<lambda>c. ncells (cdata c)) df' = map (\<lambda>c. ncells (cdata c)) df
     \<and> (\<forall>i<length df. \<not> fraction_le (cdata (df ! i)) threshold \<longrightarrow> df' ! i = df ! i)"
proof (cases "getitem df col")
  case (DataFrame ds)
  with assms show ?thesis by (simp add: missing_body_def)
next
  case (Series d)
  show ?thesis
  proof (cases "fraction_le d threshold")
    case False
    with assms Series show ?thesis by (simp add: missing_body_def)
  next
    case True
    with assms Series obtain d' where d': "fill_column d = Inr d'" "df' = setitem df col d'"
      by (auto simp: missing_body_def split: sum.splits)
    have same: "cdata c = d" if "c \<in> set df" "cname c = col" for c
      using getitem_Series [OF Series that] .
    have 1: "map cname df' = map cname df"
      unfolding d'(2) setitem_def by (simp add: o_def if_distrib [of cname] cong: if_cong)
    have 2: "map (\<lambda>c. ncells (cdata c)) df' = map (\<lambda>c. ncells (cdata c)) df"
      unfolding d'(2) setitem_def map_map o_def
      by (rule map_cong [OF refl]) (auto simp: same ncells_fill_column [OF d'(1)])
    have 3: "df' ! i = df ! i" if "i < length df" "\<not> fraction_le (cdata (df ! i)) threshold" for i
    proof -
      have "cname (df ! i) \<noteq> col"
        using same [of "df ! i"] that True by auto
      then show ?thesis using that(1) by (simp add: d'(2) setitem_def)
    qed
    from 1 2 3 show ?thesis by blast
  qed
qed

lemma nrows_from_ncells:
  "map (\<lambda>c. ncells (cdata c)) df' = map (\<lambda>c. ncells (cdata c)) df \<Longrightarrow> nrows df' = nrows df"
  by (cases df; cases df') (simp_all add: nrows_def)

text \<open>
  Claim C8: for every table and every threshold, the table that \<open>handle_missing_values\<close>
  leaves (the one it returns, or the one an exception leaves behind) has the columns of
  the input, with their labels and numbers of cells, so the same numbers of rows and of
  columns, and every column whose share of missing cells is above the threshold is
  unchanged. With unique labels and a threshold below 1 no exception is raised.
\<close>

theorem handle_missing_values_frame:
  "length (fst (handle_missing_values threshold df)) = length df
   \<and> columns (fst (handle_missing_values threshold df)) = columns df
   \<and> map (\<lambda>c. ncells (cdata c)) (fst (handle_missing_values threshold df))
       = map (\<lambda>c. ncells (cdata c)) df
   \<and> nrows (fst (handle_missing_values threshold df)) = nrows df
   \<and> (\<forall>i<length df. \<not> fraction_le (cdata (df ! i)) threshold \<longrightarrow>
         fst (handle_missing_values threshold df) ! i = df ! i)
   \<and> (distinct (columns df) \<and> threshold < 1 \<longrightarrow>
         snd (handle_missing_values threshold df) = None)"
proof -
  define P where "P df' \<longleftrightarrow>
       map cname df' = map cname df
     \<and> map (\<lambda>c. ncells (cdata c)) df' = map (\<lambda>c. ncells (cdata c)) df
     \<and> (\<forall>i<length df. \<not> fraction_le (cdata (df ! i)) threshold \<longrightarrow> df' ! i = df ! i)" for df'
  have "P (fst (for_each (missing_body threshold) (columns df) df))"
  proof (rule for_each_invariant)
    show "P df" by (simp add: P_def)
  next
    fix col df1 df2 assume p: "P df1" and b: "missing_body threshold col df1 = Inr df2"
    from p have len: "length df1 = length df"
      unfolding P_def using map_eq_imp_length_eq by blast
    from missing_body_frame [OF b] p len show "P df2"
      unfolding P_def by auto
  qed
  then have p: "P (fst (handle_missing_values threshold df))"
    by (simp add: handle_missing_values_def)
  then have "length (fst (handle_missing_values threshold df)) = length df"
    unfolding P_def using map_eq_imp_length_eq by blast
  moreover have "nrows (fst (handle_missing_values threshold df)) = nrows df"
    using p unfolding P_def by (intro nrows_from_ncells) simp
  moreover have "snd (handle_missing_values threshold df) = None"
    if "distinct (columns df)" "threshold < 1"
    using handle_missing_values_distinct [OF that] by simp
  ultimately show ?thesis
    using p unfolding P_def columns_def by blast
qed

theorem handle_missing_values_frame_witness:
  "fst (handle_missing_values 1
          [\<lparr>cname = ''A'', cdata = ObjCol [Some ''b'', None, None]\<rparr>,
           \<lparr>cname = ''B'', cdata = ObjCol [None, None, None]\<rparr>,
           \<lparr>cname = ''C'', cdata = NumCol [Fin 1, NaN, Fin 2]\<rparr>])
     = [\<lparr>cname = ''A'', cdata = ObjCol [Some ''b'', Some ''b'', Some ''b'']\<rparr>,
        \<lparr>cname = ''B'', cdata = ObjCol [None, None, None]\<rparr>,
        \<lparr>cname = ''C'', cdata = NumCol [Fin 1, NaN, Fin 2]\<rparr>]
   \<and> snd (handle_missing_values 1
          [\<lparr>cname = ''A'', cdata = ObjCol [Some ''b'', None, None]\<rparr>,
           \<lparr>cname = ''B'', cdata = ObjCol [None, None, None]\<rparr>,
           \<lparr>cname = ''C'', cdata = NumCol [Fin 1, NaN, Fin 2]\<rparr>]) = Some IndexError
   \<and> nrows (fst (handle_missing_values 1
          [\<lparr>cname = ''A'', cdata = ObjCol [Some ''b'', None, None]\<rparr>,
           \<lparr>cname = ''B'', cdata = ObjCol [None, None, None]\<rparr>,
           \<lparr>cname = ''C'', cdata = NumCol [Fin 1, NaN, Fin 2]\<rparr>])) = 3
   \<and> fst (handle_missing_values (1 / 5)
          [\<lparr>cname = ''A'', cdata = ObjCol [Some ''b'', None, None]\<rparr>,
           \<lparr>cname = ''B'', cdata = ObjCol [None, None, None]\<rparr>,
           \<lparr>cname = ''C'', cdata = NumCol [Fin 1, NaN, Fin 2]\<rparr>]) ! 2
       = \<lparr>cname = ''C'', cdata = NumCol [Fin 1, NaN, Fin 2]\<rparr>
   \<and> snd (handle_missing_values (1 / 5)
          [\<lparr>cname = ''A'', cdata = ObjCol [Some ''b'', None, None]\<rparr>,
           \<lparr>cname = ''B'', cdata = ObjCol [None, None, None]\<rparr>,
           \<lparr>cname = ''C'', cdata = NumCol [Fin 1, NaN, Fin 2]\<rparr>]) = None"
proof -
  let ?T = "[\<lparr>cname = ''A'', cdata = ObjCol [Some ''b'', None, None]\<rparr>,
             \<lparr>cname = ''B'', cdata = ObjCol [None, None, None]\<rparr>,
             \<lparr>cname = ''C'', cdata = NumCol [Fin 1, NaN, Fin 2]\<rparr>]"
  have run: "handle_missing_values 1 ?T =
      ([\<lparr>cname = ''A'', cdata = ObjCol [Some ''b'', Some ''b'', Some ''b'']\<rparr>,
        \<lparr>cname = ''B'', cdata = ObjCol [None, None, None]\<rparr>,
        \<lparr>cname = ''C'', cdata = NumCol [Fin 1, NaN, Fin 2]\<rparr>], Some IndexError)"
    by code_simp
  have n: "nrows ?T = 3" by (simp add: nrows_def ncells_def)
  have over: "\<not> fraction_le (cdata (?T ! 2)) (1 / 5)" by code_simp
  have d: "distinct (columns ?T)" "(1 / 5 :: rat) < 1" by (simp_all add: columns_def)
  have "nrows (fst (handle_missing_values 1 ?T)) = 3"
    using handle_missing_values_frame [of 1 ?T] n by simp
  moreover have "fst (handle_missing_values (1 / 5) ?T) ! 2 = ?T ! 2"
    and "snd (handle_missing_values (1 / 5) ?T) = None"
    using handle_missing_values_frame [of "1 / 5" ?T] over d by simp_all
  ultimately show ?thesis
    using run by simp
qed


section \<open>Properties: the pipeline\<close>

lemma normalize_salary_column_distinct:
  assumes "distinct (columns df)"
  shows "normalize_salary_column num_str df =
     (map (\<lambda>c. c\<lparr>cdata := (if contains ''salary'' (lower (cname c))
                             then salary_column num_str (cdata c) else cdata c)\<rparr>) df, None)"
  unfolding normalize_salary_column_def
proof (rule for_each_columns [OF assms])
  fix df' c assume "distinct (columns df')" "c \<in> set df'"
  then show "salary_body num_str (cname c) df' = Inr (setitem df' (cname c)
        (if contains ''salary'' (lower (cname c)) then salary_column num_str (cdata c) else cdata c))"
    by (simp add: salary_body_def getitem_distinct setitem_same)
qed

lemma columns_map_cdata [simp]: "columns (map (\<lambda>c. c\<lparr>cdata := f c\<rparr>) df) = columns df"
  by (simp add: columns_def o_def)

lemma columns_remove_duplicates [simp]: "columns (remove_duplicates df) = columns df"
  by (simp add: remove_duplicates_def Let_def)

text \<open>
  Claim C1 says that \<open>auto_clean\<close> raises nothing on any table. The code raises on a
  table two labels of which collide once cleaned: here \<^verbatim>\<open>name\<close> and \<^verbatim>\<open>Name \<close> both
  become \<^verbatim>\<open>Name\<close>, \<^verbatim>\<open>df['Name']\<close> is a \<^verbatim>\<open>DataFrame\<close>, and \<^verbatim>\<open>.str\<close> on it raises
  \<^verbatim>\<open>AttributeError\<close> in \<open>clean_text_columns\<close>, whatever the two library parameters are.
\<close>

theorem auto_clean_raises_on_collision:
  "auto_clean num_str to_datetime
     [\<lparr>cname = ''name'', cdata = ObjCol [Some ''x'']\<rparr>,
      \<lparr>cname = ''Name '', cdata = ObjCol [Some ''y'']\<rparr>] = Inl AttributeError"
  by code_simp

text \<open>
  Apart from that: on every table whose cleaned labels are pairwise different,
  \<open>auto_clean\<close> raises nothing and returns a table with the cleaned labels and the
  report of the four counts. This covers the table without columns and tables without
  rows.
\<close>

theorem auto_clean_returns:
  assumes "distinct (map clean_name (columns df))"
  shows "\<exists>df'. auto_clean num_str to_datetime df =
           Inr (df', \<lparr>rows_before = nrows df, rows_after = nrows df',
                      columns_before = length df, columns_after = length df\<rparr>)
         \<and> columns df' = map clean_name (columns df)"
proof -
  define df2 where "df2 = remove_duplicates (clean_column_names df)"
  define df3 where "df3 = map (\<lambda>c. c\<lparr>cdata := text_column (cname c) (cdata c)\<rparr>) df2"
  define df4 where "df4 = map (\<lambda>c. c\<lparr>cdata := (if contains ''salary'' (lower (cname c))
                             then salary_column num_str (cdata c) else cdata c)\<rparr>) df3"
  define df5 where "df5 = map (\<lambda>c. c\<lparr>cdata := (if contains ''age'' (lower (cname c))
                             then age_column (cdata c) else cdata c)\<rparr>) df4"
  define df6 where "df6 = map (\<lambda>c. c\<lparr>cdata := date_column to_datetime (cdata c)\<rparr>) df5"
  define df7 where "df7 = map (\<lambda>c. c\<lparr>cdata := impute (2 / 5) (cdata c)\<rparr>) df6"
  have c2: "columns df2 = map clean_name (columns df)"
    by (simp add: df2_def columns_clean_column_names)
  have c3: "columns df3 = columns df2" by (simp add: df3_def)
  have c4: "columns df4 = columns df3" by (simp add: df4_def)
  have c5: "columns df5 = columns df4" by (simp add: df5_def)
  have c6: "columns df6 = columns df5" by (simp add: df6_def)
  have c7: "columns df7 = columns df6" by (simp add: df7_def)
  have d: "distinct (columns df2)" "distinct (columns df3)" "distinct (columns df4)"
    "distinct (columns df5)" "distinct (columns df6)"
    using assms c2 c3 c4 c5 c6 by simp_all
  have 3: "clean_text_columns df2 = (df3, None)"
    using clean_text_columns_distinct [OF d(1)] by (simp add: df3_def)
  have 4: "normalize_salary_column num_str df3 = (df4, None)"
    using normalize_salary_column_distinct [OF d(2)] by (simp add: df4_def)
  have 5: "normalize_age_column df4 = (df5, None)"
    using normalize_age_column_distinct [OF d(3)] by (simp add: df5_def)
  have 6: "parse_date_columns to_datetime df5 = (df6, None)"
    using parse_date_columns_distinct [OF d(4)] by (simp add: df6_def)
  have 7: "handle_missing_values (2 / 5) df6 = (df7, None)"
    using handle_missing_values_distinct [OF d(5), of "2 / 5"] by (simp add: df7_def)
  have run: "auto_clean num_str to_datetime df = Inr (df7, generate_cleaning_report df df7)"
    by (simp add: auto_clean_def Let_def df2_def [symmetric] 3 4 5 6 7)
  have cols: "columns df7 = map clean_name (columns df)"
    using c2 c3 c4 c5 c6 c7 by simp
  then have "length (map cname df7) = length (map clean_name (map cname df))"
    by (simp only: columns_def)
  then have "length df7 = length df" by simp
  with run cols show ?thesis
    by (simp add: generate_cleaning_report_def)
qed

theorem auto_clean_returns_witness:
  "auto_clean (\<lambda>_. ''0'') (\<lambda>_. None) [] =
     Inr ([], \<lparr>rows_before = 0, rows_after = 0, columns_before = 0, columns_after = 0\<rparr>)
   \<and> (\<exists>df'. auto_clean (\<lambda>_. ''0'') (\<lambda>_. None)
         [\<lparr>cname = ''full name '', cdata = ObjCol [Some ''  JOHN #smith'', Some ''ann'']\<rparr>,
          \<lparr>cname = ''salary'', cdata = ObjCol [Some ''$50,000'', Some ''xl'']\<rparr>,
          \<lparr>cname = ''Full  Name'', cdata = NumCol [Fin 1, NaN]\<rparr>]
       = Inr (df', \<lparr>rows_before = 2, rows_after = nrows df',
                    columns_before = 3, columns_after = 3\<rparr>)
       \<and> columns df' = [''Full_Name'', ''Salary'', ''Full__Name''])"
proof -
  let ?T = "[\<lparr>cname = ''full name '', cdata = ObjCol [Some ''  JOHN #smith'', Some ''ann'']\<rparr>,
          \<lparr>cname = ''salary'', cdata = ObjCol [Some ''$50,000'', Some ''xl'']\<rparr>,
          \<lparr>cname = ''Full  Name'', cdata = NumCol [Fin 1, NaN]\<rparr>]"
  have d0: "distinct (map clean_name (columns ([] :: table)))" by (simp add: columns_def)
  have n1: "map clean_name (columns ?T) = [''Full_Name'', ''Salary'', ''Full__Name'']"
    by code_simp
  then have d1: "distinct (map clean_name (columns ?T))" by simp
  have s1: "nrows ?T = 2" "length ?T = 3" by (simp_all add: nrows_def ncells_def)
  from auto_clean_returns [OF d0, of "\<lambda>_. ''0''" "\<lambda>_. None"]
  have 0: "auto_clean (\<lambda>_. ''0'') (\<lambda>_. None) [] =
     Inr ([], \<lparr>rows_before = 0, rows_after = 0, columns_before = 0, columns_after = 0\<rparr>)"
    by (auto simp: columns_def nrows_def)
  from auto_clean_returns [OF d1, of "\<lambda>_. ''0''" "\<lambda>_. None"]
  obtain df' where r: "auto_clean (\<lambda>_. ''0'') (\<lambda>_. None) ?T
       = Inr (df', \<lparr>rows_before = nrows ?T, rows_after = nrows df',
                    columns_before = length ?T, columns_after = length ?T\<rparr>)"
    and c: "columns df' = map clean_name (columns ?T)"
    by blast
  have "\<exists>df'. auto_clean (\<lambda>_. ''0'') (\<lambda>_. None) ?T
       = Inr (df', \<lparr>rows_before = 2, rows_after = nrows df',
                    columns_before = 3, columns_after = 3\<rparr>)
       \<and> columns df' = [''Full_Name'', ''Salary'', ''Full__Name'']"
    using r [unfolded s1] c [unfolded n1] by blast
  with 0 show ?thesis by blast
qed

end
